theory Spec2Isabelle
  imports Main "HOL-Library.Word"
begin

unbundle bit_operations_syntax

section \<open>Machine integers and halting\<close>

type_synonym u8 = "8 word"
type_synonym u16 = "16 word"
type_synonym u32 = "32 word"
type_synonym u64 = "64 word"

text \<open>
  \<^verbatim>\<open>Panic()\<close> and a failed \<^verbatim>\<open>Assert\<close>/\<^verbatim>\<open>KAssert\<close> stop the kernel. Every
  operation that can reach one returns a sum whose left side says which of the two it was.
\<close>

datatype halt = Panic | AssertFailed

section \<open>Tasks (Task.h, as used by Scheduler.cpp)\<close>

record InterruptFrame =
  es :: u64
  ds :: u64
  r15 :: u64
  r14 :: u64
  r13 :: u64
  r12 :: u64
  r11 :: u64
  r10 :: u64
  r9 :: u64
  r8 :: u64
  rdi :: u64
  rsi :: u64
  rbp :: u64
  rdx :: u64
  rcx :: u64
  rbx :: u64
  rax :: u64
  interruptNumber :: u64
  errorCode :: u64
  rip :: u64
  cs :: u64
  rflags :: u64
  rsp :: u64
  ss :: u64

datatype TaskState = Normal | Blocked | WaitingForChild | Zombie

record TimerEntry =
  milliseconds :: u64
  unblockOnExpire :: bool
  pid :: u64

text \<open>
  The Task.h among the sources is older than Scheduler.cpp: it has a \<^verbatim>\<open>bool blocked\<close>
  and no system-call stack. The fields here are the ones Scheduler.cpp reads and writes,
  and the states are the four of the specification, \<^verbatim>\<open>Normal\<close> being the state of a
  zero-initialised task. The three owned objects (\<^verbatim>\<open>VFS*\<close>, \<^verbatim>\<open>PagingManager*\<close>,
  \<^verbatim>\<open>UserspaceAllocator*\<close>) are pointers in the source and object handles here.
\<close>

record Task =
  pid :: u64
  frame :: InterruptFrame
  state :: TaskState
  syscallStackAddr :: u64
  syscallStackBottom :: u64
  vfs :: nat
  pagingManager :: nat
  userspaceAllocator :: nat

subsection \<open>Scheduler::GetTask, Scheduler::Unblock, Scheduler::Unsuspend\<close>

text \<open>
  \<^verbatim>\<open>GetTask\<close> walks the global task queue front to back and returns a reference to the
  first task with the given PID; it panics when there is none. The reference is the index
  of the task in the queue.
\<close>

fun GetTask :: "u64 \<Rightarrow> Task list \<Rightarrow> halt + nat" where
  "GetTask p [] = Inl Panic"
| "GetTask p (t # ts) =
     (if pid t = p then Inr 0
      else (case GetTask p ts of Inl e \<Rightarrow> Inl e | Inr i \<Rightarrow> Inr (Suc i)))"

definition Unblock :: "u64 \<Rightarrow> Task list \<Rightarrow> halt + Task list" where
  "Unblock p taskQueue =
     (case GetTask p taskQueue of
        Inl e \<Rightarrow> Inl e
      | Inr i \<Rightarrow>
          (if state (taskQueue ! i) = Blocked
           then Inr (taskQueue[i := (taskQueue ! i)\<lparr>state := Normal\<rparr>])
           else Inl AssertFailed))"

definition Unsuspend :: "u64 \<Rightarrow> u64 \<Rightarrow> Task list \<Rightarrow> halt + Task list" where
  "Unsuspend p returnValue taskQueue =
     (case GetTask p taskQueue of
        Inl e \<Rightarrow> Inl e
      | Inr i \<Rightarrow>
          (if state (taskQueue ! i) = Blocked \<or> state (taskQueue ! i) = WaitingForChild
           then Inr (taskQueue[i := (taskQueue ! i)
                  \<lparr>frame := (frame (taskQueue ! i))\<lparr>rax := returnValue\<rparr>, state := Normal\<rparr>])
           else Inl AssertFailed))"


subsection \<open>Vector\<close>

text \<open>
  Modelled from the spec: Vector.h is not among the sources. As the specification words
  the run queue operations, \<^verbatim>\<open>Push\<close> appends at the tail (\<open>xs @ [x]\<close>),
  \<^verbatim>\<open>Get(i)\<close> is \<open>xs ! i\<close> and \<^verbatim>\<open>Pop(i)\<close> removes the element at index \<open>i\<close>, closing
  the gap, and returns it.
\<close>

definition Pop :: "nat \<Rightarrow> 'a list \<Rightarrow> 'a \<times> 'a list" where
  "Pop i xs = (xs ! i, take i xs @ drop (Suc i) xs)"

subsection \<open>The scheduler and the globals it works on\<close>

text \<open>
  The members of \<^verbatim>\<open>class Scheduler\<close> that Scheduler.cpp uses, together with the file's
  globals: the task queue, the PID counter (the \<^verbatim>\<open>static\<close> local of \<^verbatim>\<open>CreateTask\<close>)
  and the byte memory that \<^verbatim>\<open>MemCopy\<close> works on. The devices are reduced to what the
  scheduler last wrote to them: \<open>lapicTimer\<close> is the argument of the last
  \<^verbatim>\<open>SetTimeBetweenTimerFires\<close>, \<open>tssSystemCallStack\<close> that of the last
  \<^verbatim>\<open>SetSystemCallStack\<close>, \<open>cr3\<close> the paging manager whose \<^verbatim>\<open>SetCR3\<close> ran last.
\<close>

record Scheduler =
  currentTask :: Task
  idleTask :: Task
  restoreFrame :: bool
  timerEntries :: "TimerEntry list"
  currentTimerTime :: u64
  taskQueue :: "Task list"
  lapicTimer :: u64
  tssSystemCallStack :: u64
  cr3 :: nat
  nextPid :: u64
  memory :: "u64 \<Rightarrow> u8"

subsection \<open>Scheduler::ConfigureTimerClosestExpiry\<close>

definition closestExpiry :: "TimerEntry list \<Rightarrow> u64" where
  "closestExpiry entries =
     fold (\<lambda>time closestTime.
             if milliseconds time < closestTime then milliseconds time else closestTime)
          entries 100"

definition ConfigureTimerClosestExpiry :: "Scheduler \<Rightarrow> Scheduler" where
  "ConfigureTimerClosestExpiry s =
     (let closestTime = closestExpiry (timerEntries s)
      in s\<lparr>currentTimerTime := closestTime, lapicTimer := closestTime\<rparr>)"

subsection \<open>Scheduler::UpdateTimerEntries\<close>

text \<open>
  The loop \<^verbatim>\<open>for (i = GetLength(); i-- > 0; )\<close> visits the indices from the last to the
  first. The first argument of the recursion is the value of \<open>i\<close> before the decrement
  of the loop test, so the body works on index \<open>i\<close> of \<open>Suc i\<close>.
\<close>

fun UpdateTimerEntries_loop ::
  "u64 \<Rightarrow> nat \<Rightarrow> TimerEntry list \<Rightarrow> Task list \<Rightarrow> halt + (TimerEntry list \<times> Task list)" where
  "UpdateTimerEntries_loop deltaTime 0 entries queue = Inr (entries, queue)"
| "UpdateTimerEntries_loop deltaTime (Suc i) entries queue =
     (let timerEntry = entries ! i in
      if milliseconds timerEntry \<le> deltaTime then
        (if unblockOnExpire timerEntry then
           (if TimerEntry.pid timerEntry = 0 then Inl AssertFailed
            else (case Unblock (TimerEntry.pid timerEntry) queue of
                    Inl e \<Rightarrow> Inl e
                  | Inr queue' \<Rightarrow>
                      UpdateTimerEntries_loop deltaTime i (snd (Pop i entries)) queue'))
         else UpdateTimerEntries_loop deltaTime i (snd (Pop i entries)) queue)
      else UpdateTimerEntries_loop deltaTime i
             (entries[i := timerEntry\<lparr>milliseconds := milliseconds timerEntry - deltaTime\<rparr>])
             queue)"

text \<open>The first argument is what \<^verbatim>\<open>lapic->GetTimeRemainingMilliseconds()\<close> returned.\<close>

definition UpdateTimerEntries :: "u64 \<Rightarrow> Scheduler \<Rightarrow> halt + Scheduler" where
  "UpdateTimerEntries remainingTime s =
     (if \<not> (currentTimerTime s > remainingTime) then Inl AssertFailed
      else
        (let deltaTime = currentTimerTime s - remainingTime in
         case UpdateTimerEntries_loop deltaTime (length (timerEntries s))
                (timerEntries s) (taskQueue s) of
           Inl e \<Rightarrow> Inl e
         | Inr (entries, queue) \<Rightarrow> Inr (s\<lparr>timerEntries := entries, taskQueue := queue\<rparr>)))"

subsection \<open>Scheduler::SwitchToNextTask\<close>

text \<open>
  The selection loop
  \<^verbatim>\<open>for (i = 0; i < taskQueue->GetLength(); ++i)
     if (taskQueue->Get(i).state == TaskState::Normal)
       { currentTask = taskQueue->Pop(i); foundNewTask = true; }\<close>
  has no \<^verbatim>\<open>break\<close>: after a pop it goes on with \<open>i + 1\<close> on the shortened queue, and
  the length is read again at every test.
\<close>

function selectLoop :: "nat \<Rightarrow> Task list \<Rightarrow> Task \<Rightarrow> bool \<Rightarrow> Task list \<times> Task \<times> bool" where
  "selectLoop i queue current foundNewTask =
     (if i < length queue then
        (if state (queue ! i) = Normal
         then selectLoop (Suc i) (snd (Pop i queue)) (fst (Pop i queue)) True
         else selectLoop (Suc i) queue current foundNewTask)
      else (queue, current, foundNewTask))"
  by pat_completeness auto
termination
  by (relation "measure (\<lambda>(i, queue, current, foundNewTask). length queue - i)")
     (auto simp: Pop_def)

declare selectLoop.simps [simp del]

definition SwitchToNextTask ::
  "u64 \<Rightarrow> InterruptFrame \<Rightarrow> Scheduler \<Rightarrow> halt + (InterruptFrame \<times> Scheduler)" where
  "SwitchToNextTask remainingTime interruptFrame s =
     (case UpdateTimerEntries remainingTime s of
        Inl e \<Rightarrow> Inl e
      | Inr s1 \<Rightarrow>
         (let s2 = (if restoreFrame s1
                    then (let saved = (currentTask s1)\<lparr>frame := interruptFrame\<rparr>
                          in s1\<lparr>currentTask := saved, taskQueue := taskQueue s1 @ [saved]\<rparr>)
                    else s1\<lparr>restoreFrame := True\<rparr>);
              (queue, current, foundNewTask) = selectLoop 0 (taskQueue s2) (currentTask s2) False;
              s3 = s2\<lparr>currentTask := current, taskQueue := queue\<rparr>;
              s4 = (if \<not> foundNewTask
                    then s3\<lparr>restoreFrame := False, currentTask := idleTask s3\<rparr>
                    else s3);
              s5 = ConfigureTimerClosestExpiry s4;
              s6 = s5\<lparr>tssSystemCallStack := syscallStackAddr (currentTask s5),
                      cr3 := pagingManager (currentTask s5)\<rparr>
          in Inr (frame (currentTask s6), s6)))"

subsection \<open>Scheduler::SuspendSystemCall and Scheduler::SleepCurrentTask\<close>



subsection \<open>MemCopy and HigherHalf (Memory.cpp)\<close>

function MemCopy_loop :: "(u64 \<Rightarrow> u8) \<Rightarrow> u64 \<Rightarrow> u64 \<Rightarrow> nat \<Rightarrow> nat \<Rightarrow> (u64 \<Rightarrow> u8)" where
  "MemCopy_loop mem dest src i count =
     (if i < count
      then MemCopy_loop (mem(dest + of_nat i := mem (src + of_nat i))) dest src (Suc i) count
      else mem)"
  by pat_completeness auto
termination
  by (relation "measure (\<lambda>(mem, dest, src, i, count). count - i)") auto

declare MemCopy_loop.simps [simp del]

definition MemCopy :: "(u64 \<Rightarrow> u8) \<Rightarrow> u64 \<Rightarrow> u64 \<Rightarrow> u64 \<Rightarrow> (u64 \<Rightarrow> u8)" where
  "MemCopy mem destination source count = MemCopy_loop mem destination source 0 (unat count)"

definition HigherHalf :: "u64 \<Rightarrow> u64" where
  "HigherHalf physAddr = physAddr + 0xffff800000000000"

subsection \<open>CreateTask\<close>

text \<open>
  SegmentSelectors.h, with the four selectors and \<^verbatim>\<open>INITIAL_RFLAGS\<close>, is not among the
  sources: the five constants are a parameter.
\<close>

record TaskConstants =
  USER_CODE_SEGMENT :: u64
  KERNEL_CODE_SEGMENT :: u64
  USER_DATA_SEGMENT :: u64
  KERNEL_DATA_SEGMENT :: u64
  INITIAL_RFLAGS :: u64

definition SYSCALL_STACK_PAGE_COUNT :: u64 where
  "SYSCALL_STACK_PAGE_COUNT = 3"

text \<open>\<^verbatim>\<open>InterruptFrame frame {}\<close> and \<^verbatim>\<open>Task task {}\<close>: every member zero.\<close>

definition zeroFrame :: InterruptFrame where
  "zeroFrame = \<lparr>es = 0, ds = 0, r15 = 0, r14 = 0, r13 = 0, r12 = 0, r11 = 0, r10 = 0,
     r9 = 0, r8 = 0, rdi = 0, rsi = 0, rbp = 0, rdx = 0, rcx = 0, rbx = 0, rax = 0,
     interruptNumber = 0, errorCode = 0, rip = 0, cs = 0, rflags = 0, rsp = 0, ss = 0\<rparr>"

definition zeroTask :: Task where
  "zeroTask = \<lparr>pid = 0, frame = zeroFrame, state = Normal, syscallStackAddr = 0,
     syscallStackBottom = 0, vfs = 0, pagingManager = 0, userspaceAllocator = 0\<rparr>"

text \<open>
  The last two arguments are the physical address that \<^verbatim>\<open>RequestPageFrames\<close> returned
  and the PID counter; the counter comes back incremented when a PID was drawn.
\<close>

definition CreateTask ::
  "TaskConstants \<Rightarrow> nat \<Rightarrow> nat \<Rightarrow> nat \<Rightarrow> u64 \<Rightarrow> u64 \<Rightarrow> bool \<Rightarrow> bool \<Rightarrow> u64 \<Rightarrow> u64 \<Rightarrow> Task \<times> u64" where
  "CreateTask k pagingManager' vfs' userspaceAllocator' entry stackPtr userTask setPid
     pageFrames pidCounter =
     (let task0 = zeroTask\<lparr>vfs := vfs', pagingManager := pagingManager',
                            userspaceAllocator := userspaceAllocator'\<rparr>;
          dataSegment = (if userTask then USER_DATA_SEGMENT k else KERNEL_DATA_SEGMENT k);
          frame0 = zeroFrame\<lparr>cs := (if userTask then USER_CODE_SEGMENT k
                                     else KERNEL_CODE_SEGMENT k),
                              ds := dataSegment, ss := dataSegment, es := dataSegment,
                              rflags := INITIAL_RFLAGS k, rip := entry, rsp := stackPtr\<rparr>;
          task1 = task0\<lparr>frame := frame0\<rparr>;
          syscallStackSize = SYSCALL_STACK_PAGE_COUNT * 0x1000;
          syscallStack = HigherHalf (pageFrames + syscallStackSize);
          task2 = task1\<lparr>syscallStackAddr := syscallStack,
                        syscallStackBottom := syscallStack - syscallStackSize\<rparr>
      in if setPid then (task2\<lparr>pid := pidCounter\<rparr>, pidCounter + 1)
         else (task2, pidCounter))"

subsection \<open>Scheduler::ForkCurrentTask\<close>

text \<open>
  The objects made by the three \<^verbatim>\<open>new\<close> expressions (the paging manager that received
  \<^verbatim>\<open>CopyUserspace\<close>, the copies of the VFS and of the userspace allocator) and the
  frames handed out by \<^verbatim>\<open>RequestPageFrames\<close> are inputs: their classes are not among
  the sources. The result is the returned PID and the state after the call.
\<close>

definition ForkCurrentTask ::
  "TaskConstants \<Rightarrow> nat \<Rightarrow> nat \<Rightarrow> nat \<Rightarrow> u64 \<Rightarrow> InterruptFrame \<Rightarrow> Scheduler \<Rightarrow> u64 \<times> Scheduler" where
  "ForkCurrentTask k newPagingManager childVfs childUserspaceAllocator pageFrames
     interruptFrame s =
     (let (child0, pidCounter) =
            CreateTask k newPagingManager childVfs childUserspaceAllocator 0 0 True True
              pageFrames (nextPid s);
          child1 = child0\<lparr>frame := interruptFrame\<rparr>;
          child2 = child1\<lparr>frame := (frame child1)\<lparr>rax := 0\<rparr>\<rparr>;
          mem = MemCopy (memory s) (syscallStackBottom child2)
                  (syscallStackBottom (currentTask s)) (SYSCALL_STACK_PAGE_COUNT * 0x1000);
          child = child2\<lparr>syscallStackAddr := syscallStackAddr (currentTask s)\<rparr>
      in (Task.pid child,
          s\<lparr>memory := mem, nextPid := pidCounter, taskQueue := taskQueue s @ [child]\<rparr>))"

subsection \<open>Reference descriptions used in the statements about the scheduler\<close>



fun UnblockAll :: "u64 list \<Rightarrow> Task list \<Rightarrow> halt + Task list" where
  "UnblockAll [] queue = Inr queue"
| "UnblockAll (p # ps) queue =
     (if p = 0 then Inl AssertFailed
      else (case Unblock p queue of Inl e \<Rightarrow> Inl e | Inr queue' \<Rightarrow> UnblockAll ps queue'))"

subsection \<open>Example states\<close>

definition exampleConstants :: TaskConstants where
  "exampleConstants = \<lparr>USER_CODE_SEGMENT = 0x1b, KERNEL_CODE_SEGMENT = 0x08,
     USER_DATA_SEGMENT = 0x23, KERNEL_DATA_SEGMENT = 0x10, INITIAL_RFLAGS = 0x202\<rparr>"

definition exampleTask :: "u64 \<Rightarrow> TaskState \<Rightarrow> Task" where
  "exampleTask p st =
     zeroTask\<lparr>pid := p, frame := zeroFrame\<lparr>rax := 7, rip := 0x1000 * p\<rparr>, state := st,
       syscallStackAddr := 0xffff800000103000 + 0x10000 * p,
       syscallStackBottom := 0xffff800000100000 + 0x10000 * p\<rparr>"

definition exampleScheduler :: "Task list \<Rightarrow> TimerEntry list \<Rightarrow> Scheduler" where
  "exampleScheduler queue entries =
     \<lparr>currentTask = zeroTask, idleTask = zeroTask, restoreFrame = False,
      timerEntries = entries, currentTimerTime = 10, taskQueue = queue, lapicTimer = 10,
      tssSystemCallStack = 0, cr3 = 0, nextPid = 4, memory = (\<lambda>a. 0)\<rparr>"



definition blockedExample :: "Task list" where
  "blockedExample = [exampleTask 1 Normal, exampleTask 2 Blocked]"

definition waitingExample :: "Task list" where
  "waitingExample = [exampleTask 1 Normal, exampleTask 2 WaitingForChild]"



section \<open>The virtual file system (VFS.cpp)\<close>

text \<open>
  A C string is the list of its characters before the terminating zero. A \<open>VNode\<close> owns
  a copy of its name and an inode number.
\<close>

record VNode =
  name :: string
  inodeNum :: u32

text \<open>The \<^verbatim>\<open>VNode*\<close> of a descriptor is \<open>None\<close> while it is the null pointer.\<close>

record FileDescriptor =
  present :: bool
  offset :: u64
  vNode :: "VNode option"

record Process =
  fileDescriptors :: "FileDescriptor list"

datatype VFSSeekType = SeekSet | SeekCursor | SeekEnd

text \<open>
  Ext2Inode.h and Ext2Inode.cpp are not among the sources. Of an inode the file system
  code below reads \<open>size0\<close> and \<open>typePermissions\<close>; \<open>directoryListing\<close> is what the
  inode's \<^verbatim>\<open>GetDirectoryListing()\<close> returns. \<^verbatim>\<open>Ext2::GetInode\<close> turns every inode
  number into a pointer into the RAM disk, so the file system is a total function from
  inode numbers.
\<close>

record Ext2Inode =
  typePermissions :: u16
  size0 :: u32
  directoryListing :: "VNode list"

type_synonym Ext2 = "u32 \<Rightarrow> Ext2Inode"

text \<open>
  The parts of the absent headers and of Ext2Inode.cpp that \<^verbatim>\<open>Open\<close> and
  \<^verbatim>\<open>RepositionOffset\<close> use are a parameter: the three flag bits of \<^verbatim>\<open>VFSOpenFlag\<close>,
  the \<^verbatim>\<open>RegularFile\<close> bit of \<^verbatim>\<open>InodeTypePermissions\<close>, \<^verbatim>\<open>Ext2Inode::Create(name)\<close>
  (directory inode, name; it returns the new inode number) and the call
  \<^verbatim>\<open>inode->Write(0, count, position, false)\<close> (inode, count, position).
\<close>

record VFSEnv =
  OCreate :: u32
  OTruncate :: u32
  OAppend :: u32
  RegularFile :: u16
  inodeCreate :: "u32 \<Rightarrow> string \<Rightarrow> Ext2 \<Rightarrow> u32 \<times> Ext2"
  inodeWriteNull :: "u32 \<Rightarrow> u64 \<Rightarrow> u64 \<Rightarrow> Ext2 \<Rightarrow> Ext2"

subsection \<open>String::Split and String::Count\<close>

text \<open>
  Modelled from the spec: StringUtilities.h is not among the sources. The path is split
  at the separator: \<^verbatim>\<open>String::Split(s, c, &rest)\<close> returns
  the part of \<open>s\<close> before the first \<open>c\<close> and leaves in \<open>rest\<close> what follows that
  \<open>c\<close> (nothing when there is no \<open>c\<close>); it does not skip an empty part, which is what
  the assertion on the first token of an absolute path relies on. \<^verbatim>\<open>String::Count\<close>
  counts the occurrences of a character.
\<close>

definition Split :: "string \<Rightarrow> char \<Rightarrow> string \<times> string" where
  "Split s c = (takeWhile (\<lambda>x. x \<noteq> c) s, drop 1 (dropWhile (\<lambda>x. x \<noteq> c) s))"

definition Count :: "string \<Rightarrow> char \<Rightarrow> nat" where
  "Count s c = length (filter (\<lambda>x. x = c) s)"

subsection \<open>TraversePath\<close>

text \<open>
  The inner \<^verbatim>\<open>for\<close> loop, which stops at the first entry of the listing whose name is
  the token.
\<close>

definition findInListing :: "VNode list \<Rightarrow> string \<Rightarrow> VNode option" where
  "findInListing nodes pathToken = find (\<lambda>nodeInDirectory. name nodeInDirectory = pathToken) nodes"

text \<open>
  The \<^verbatim>\<open>while (remainingPathDepth > 0)\<close> loop. Its state is the remaining path, the
  current inode (by number), \<open>lastVNode\<close>, \<open>foundNextInode\<close> and \<open>pathToken\<close>. The
  \<^verbatim>\<open>KAssert\<close> at the end of the body fails when the token was not found and the depth
  left is not zero.
\<close>

fun TraversePath_loop ::
  "Ext2 \<Rightarrow> nat \<Rightarrow> string \<Rightarrow> u32 \<Rightarrow> VNode \<Rightarrow> bool \<Rightarrow> string \<Rightarrow> halt + (VNode \<times> bool \<times> string)" where
  "TraversePath_loop fs 0 remainingPath currentInode lastVNode foundNextInode pathToken =
     Inr (lastVNode, foundNextInode, pathToken)"
| "TraversePath_loop fs (Suc depth) remainingPath currentInode lastVNode foundNextInode pathToken =
     (let (pathToken', remainingPath') = Split remainingPath CHR ''/'' in
      case findInListing (directoryListing (fs currentInode)) pathToken' of
        Some nodeInDirectory \<Rightarrow>
          TraversePath_loop fs depth remainingPath' (inodeNum nodeInDirectory) nodeInDirectory
            True pathToken'
      | None \<Rightarrow>
          (if depth = 0
           then TraversePath_loop fs depth remainingPath' currentInode lastVNode False pathToken'
           else Inl AssertFailed))"

definition INODE_ROOT_DIR :: u32 where
  "INODE_ROOT_DIR = 2"

text \<open>The result is the returned \<open>VNode\<close>, \<open>exists\<close> and \<open>finalPathToken\<close>.\<close>

definition TraversePath :: "Ext2 \<Rightarrow> string \<Rightarrow> halt + (VNode \<times> bool \<times> string)" where
  "TraversePath fs absolutePath =
     (let (pathToken, remainingPath) = Split absolutePath CHR ''/'' in
      if pathToken \<noteq> [] then Inl AssertFailed
      else TraversePath_loop fs (Count remainingPath CHR ''/'' + 1) remainingPath
             INODE_ROOT_DIR \<lparr>name = [], inodeNum = 2\<rparr> False pathToken)"

subsection \<open>RepositionOffset\<close>

text \<open>
  The inode is given by its number. The result is the returned offset, the descriptor
  and the file system after the call.
\<close>

definition RepositionOffset ::
  "VFSEnv \<Rightarrow> FileDescriptor \<Rightarrow> u32 \<Rightarrow> u64 \<Rightarrow> VFSSeekType \<Rightarrow> Ext2 \<Rightarrow> u64 \<times> FileDescriptor \<times> Ext2" where
  "RepositionOffset env fileDescriptor inode newOffset seekType fs =
     (let fd = (case seekType of
                  SeekSet \<Rightarrow> fileDescriptor\<lparr>offset := newOffset\<rparr>
                | SeekCursor \<Rightarrow> fileDescriptor\<lparr>offset := offset fileDescriptor + newOffset\<rparr>
                | SeekEnd \<Rightarrow> fileDescriptor\<lparr>offset := ucast (size0 (fs inode)) + newOffset\<rparr>);
          fs' = (if offset fd > ucast (size0 (fs inode))
                 then inodeWriteNull env inode (offset fd - ucast (size0 (fs inode)))
                        (ucast (size0 (fs inode))) fs
                 else fs)
      in (offset fd, fd, fs'))"

subsection \<open>Close and Open\<close>

definition Close :: "nat \<Rightarrow> Process \<Rightarrow> Process" where
  "Close descriptor process =
     process\<lparr>fileDescriptors := (fileDescriptors process)
       [descriptor := (fileDescriptors process ! descriptor)\<lparr>present := False, offset := 0\<rparr>]\<rparr>"

text \<open>
  The search for a descriptor number at the head of \<^verbatim>\<open>Open\<close>:
  \<^verbatim>\<open>for (int i = 0; i < GetLength(); ++i)
     if (!fileDescriptors[i].present)
       { fileDescriptors[i].present = true; descriptorIndex = i; }\<close>
  followed by the \<^verbatim>\<open>Push\<close> of a new descriptor when the index is still \<open>-1\<close>. The
  loop has no \<^verbatim>\<open>break\<close>. The table has fewer than \<open>2^31\<close> slots, so that the \<^verbatim>\<open>int\<close>
  index is the slot number.
\<close>

definition findDescriptor_loop :: "FileDescriptor list \<Rightarrow> FileDescriptor list \<times> int" where
  "findDescriptor_loop fds =
     fold (\<lambda>i (table, descriptorIndex).
             if \<not> present (table ! i)
             then (table[i := (table ! i)\<lparr>present := True\<rparr>], int i)
             else (table, descriptorIndex))
          [0..<length fds] (fds, -1)"

definition findDescriptor :: "FileDescriptor list \<Rightarrow> FileDescriptor list \<times> int" where
  "findDescriptor fds =
     (let (table, descriptorIndex) = findDescriptor_loop fds in
      if descriptorIndex = -1
      then (table @ [\<lparr>present = True, offset = 0, vNode = None\<rparr>], int (length table))
      else (table, descriptorIndex))"

text \<open>
  The result is the returned descriptor number, the process and the file system after
  the call. A failed assertion of \<^verbatim>\<open>TraversePath\<close> halts the kernel inside \<^verbatim>\<open>Open\<close>.
\<close>

definition Open ::
  "VFSEnv \<Rightarrow> string \<Rightarrow> u32 \<Rightarrow> Process \<Rightarrow> Ext2 \<Rightarrow> halt + (int \<times> Process \<times> Ext2)" where
  "Open env path flags process fs =
     (let (table, descriptorIndex) = findDescriptor (fileDescriptors process) in
      case TraversePath fs path of
        Inl e \<Rightarrow> Inl e
      | Inr (vnode, exists, filename) \<Rightarrow>
          (let descriptor0 = (table ! nat descriptorIndex)\<lparr>vNode := Some vnode\<rparr>;
               inode = inodeNum vnode;
               (descriptor1, fs1) =
                 (if flags AND OCreate env \<noteq> 0 \<and> \<not> exists
                  then (let (created, fs') = inodeCreate env inode filename fs
                        in (descriptor0\<lparr>vNode := Some \<lparr>name = filename, inodeNum = created\<rparr>\<rparr>, fs'))
                  else (descriptor0, fs));
               fs2 = (if flags AND OTruncate env \<noteq> 0 \<and>
                         typePermissions (fs1 inode) AND RegularFile env \<noteq> 0
                      then fs1(inode := (fs1 inode)\<lparr>size0 := 0\<rparr>)
                      else fs1);
               (descriptor2, fs3) =
                 (if flags AND OAppend env \<noteq> 0
                  then snd (RepositionOffset env descriptor1 inode 0 SeekEnd fs2)
                  else (descriptor1, fs2))
           in Inr (descriptorIndex,
                   process\<lparr>fileDescriptors := table[nat descriptorIndex := descriptor2]\<rparr>,
                   fs3)))"

subsection \<open>Reference descriptions used in the statements about the file system\<close>

text \<open>
  The parts of the path after its leading slash, that is the stretches between slashes,
  empty ones included; these are the tokens the loop of \<^verbatim>\<open>TraversePath\<close> looks up. The
  components of the path are, as the specification splits it, the parts that are not
  empty. \<open>resolve\<close> is the successive directory lookup of a list of names starting from a
  vnode: \<open>Some\<close> of the vnode reached when every name resolves, \<open>None\<close> when one does not.
\<close>

fun parts :: "string \<Rightarrow> string list" where
  "parts [] = [[]]"
| "parts (c # path) =
     (if c = CHR ''/'' then [] # parts path
      else (case parts path of [] \<Rightarrow> [[c]] | (x # xs) \<Rightarrow> (c # x) # xs))"

definition components :: "string \<Rightarrow> string list" where
  "components path = filter (\<lambda>part. part \<noteq> []) (parts path)"

fun resolve :: "Ext2 \<Rightarrow> VNode \<Rightarrow> string list \<Rightarrow> VNode option" where
  "resolve fs v [] = Some v"
| "resolve fs v (component # rest) =
     (case findInListing (directoryListing (fs (inodeNum v))) component of
        None \<Rightarrow> None
      | Some next \<Rightarrow> resolve fs next rest)"

definition rootVNode :: VNode where
  "rootVNode = \<lparr>name = [], inodeNum = 2\<rparr>"

text \<open>The lowest free slot of a descriptor table, if there is one.\<close>

definition lowestFree :: "FileDescriptor list \<Rightarrow> nat option" where
  "lowestFree fds =
     (case filter (\<lambda>i. \<not> present (fds ! i)) [0..<length fds] of
        [] \<Rightarrow> None
      | i # others \<Rightarrow> Some i)"

subsection \<open>Example file system and descriptor tables\<close>

definition emptyInode :: Ext2Inode where
  "emptyInode = \<lparr>typePermissions = 0, size0 = 0, directoryListing = []\<rparr>"

definition exampleFs :: Ext2 where
  "exampleFs =
     (\<lambda>n. emptyInode)
       (2 := \<lparr>typePermissions = 0x4000, size0 = 1024,
              directoryListing = [\<lparr>name = ''bin'', inodeNum = 12\<rparr>,
                                  \<lparr>name = ''a.txt'', inodeNum = 13\<rparr>]\<rparr>,
        12 := \<lparr>typePermissions = 0x4000, size0 = 1024,
               directoryListing = [\<lparr>name = ''init'', inodeNum = 14\<rparr>]\<rparr>,
        13 := \<lparr>typePermissions = 0x8000, size0 = 5, directoryListing = []\<rparr>,
        14 := \<lparr>typePermissions = 0x8000, size0 = 100, directoryListing = []\<rparr>)"

definition closedDescriptor :: FileDescriptor where
  "closedDescriptor = \<lparr>present = False, offset = 0, vNode = None\<rparr>"

section \<open>Ext2 directories (Ext2.cpp)\<close>

text \<open>
  \<^verbatim>\<open>Ext2Inode::Read\<close> is not among the sources. The directory is given by its \<open>size0\<close>
  and by \<open>content\<close>: \<open>content p\<close> is the byte that a read at file position \<open>p\<close> leaves
  in the caller's buffer, which for \<open>p\<close> below \<open>size0\<close> is the byte of the file at \<open>p\<close>.
  The \<^verbatim>\<open>Ext2DirectoryEntry*\<close> of the source points at the bytes read, so an entry is the
  list of these bytes and its fields are decoded from them, little-endian.
\<close>

definition directoryEntry_inodeNum :: "u8 list \<Rightarrow> u32" where
  "directoryEntry_inodeNum directoryEntry =
     ucast (directoryEntry ! 0) OR push_bit 8 (ucast (directoryEntry ! 1)) OR
     push_bit 16 (ucast (directoryEntry ! 2)) OR push_bit 24 (ucast (directoryEntry ! 3))"

definition directoryEntry_entrySize :: "u8 list \<Rightarrow> u16" where
  "directoryEntry_entrySize directoryEntry =
     ucast (directoryEntry ! 4) OR push_bit 8 (ucast (directoryEntry ! 5))"

definition directoryEntry_nameLength :: "u8 list \<Rightarrow> u8" where
  "directoryEntry_nameLength directoryEntry = directoryEntry ! 6"

text \<open>
  The constructor \<^verbatim>\<open>VNode(const char*, uint32_t)\<close> of VFS.cpp copies the name up to its
  terminating zero.
\<close>

definition VNode_new :: "u8 list \<Rightarrow> u32 \<Rightarrow> VNode" where
  "VNode_new nameBytes inode =
     \<lparr>name = map (\<lambda>b. char_of (unat b)) (takeWhile (\<lambda>b. b \<noteq> 0) nameBytes),
      inodeNum = inode\<rparr>"

definition ConstructVNode :: "u8 list \<Rightarrow> VNode" where
  "ConstructVNode directoryEntry =
     VNode_new (take (unat (directoryEntry_nameLength directoryEntry)) (drop 8 directoryEntry))
       (directoryEntry_inodeNum directoryEntry)"

text \<open>
  The \<^verbatim>\<open>while (parsedLength < directoryInode->size0)\<close> loop. It need not end, so it is
  a partial function: \<open>None\<close> stands for a scan that never returns.
\<close>

partial_function (option) GetDirectoryListing_loop ::
  "(nat \<Rightarrow> u8) \<Rightarrow> u32 \<Rightarrow> nat \<Rightarrow> VNode list \<Rightarrow> VNode list option" where
  "GetDirectoryListing_loop content size0' parsedLength vNodes =
     (if parsedLength < unat size0' then
        (let nameLengthLowByte = content (parsedLength + 6);
             trueEntrySize = 8 + unat nameLengthLowByte;
             directoryEntry = map (\<lambda>k. content (parsedLength + k)) [0..<trueEntrySize]
         in GetDirectoryListing_loop content size0'
              (parsedLength + unat (directoryEntry_entrySize directoryEntry))
              (if directoryEntry_inodeNum directoryEntry \<noteq> 0
               then vNodes @ [ConstructVNode directoryEntry]
               else vNodes))
      else Some vNodes)"

definition GetDirectoryListing :: "(nat \<Rightarrow> u8) \<Rightarrow> u32 \<Rightarrow> VNode list option" where
  "GetDirectoryListing content size0' = GetDirectoryListing_loop content size0' 0 []"

subsection \<open>Reference description of a directory's entries\<close>

text \<open>
  The entry that starts at a position of the directory, and the directories whose
  entries, from a position on, have the given \<open>entry_size\<close> fields, each at least 1. The
  entries of such a directory start at the \<open>offsets\<close>.
\<close>

definition entryAt :: "(nat \<Rightarrow> u8) \<Rightarrow> nat \<Rightarrow> u8 list" where
  "entryAt content position =
     map (\<lambda>k. content (position + k)) [0..<8 + unat (content (position + 6))]"

fun hasEntrySizes :: "(nat \<Rightarrow> u8) \<Rightarrow> nat \<Rightarrow> nat list \<Rightarrow> bool" where
  "hasEntrySizes content position [] = True"
| "hasEntrySizes content position (entrySize # sizes) =
     (unat (directoryEntry_entrySize (entryAt content position)) = entrySize \<and>
      1 \<le> entrySize \<and> hasEntrySizes content (position + entrySize) sizes)"

fun offsets :: "nat \<Rightarrow> nat list \<Rightarrow> nat list" where
  "offsets position [] = []"
| "offsets position (entrySize # sizes) = position # offsets (position + entrySize) sizes"

definition listedEntries :: "(nat \<Rightarrow> u8) \<Rightarrow> nat \<Rightarrow> nat list \<Rightarrow> VNode list" where
  "listedEntries content position sizes =
     map (\<lambda>p. ConstructVNode (entryAt content p))
       (filter (\<lambda>p. directoryEntry_inodeNum (entryAt content p) \<noteq> 0) (offsets position sizes))"

subsection \<open>Example directory\<close>

text \<open>
  Three entries of 12 bytes: inode 11 named \<open>a\<close>, a free slot (inode 0), inode 12 named
  \<open>bc\<close>. The second example has an entry of size 0 in second place.
\<close>

definition exampleDirectoryBytes :: "u8 list" where
  "exampleDirectoryBytes =
     [11, 0, 0, 0, 12, 0, 1, 1, 97, 0, 0, 0,
      0, 0, 0, 0, 12, 0, 1, 1, 120, 0, 0, 0,
      12, 0, 0, 0, 12, 0, 2, 1, 98, 99, 0, 0]"

definition exampleDirectory :: "nat \<Rightarrow> u8" where
  "exampleDirectory p = (if p < 36 then exampleDirectoryBytes ! p else 0)"

definition brokenDirectory :: "nat \<Rightarrow> u8" where
  "brokenDirectory p = (if p = 16 then 0 else exampleDirectory p)"

section \<open>System calls (InterruptHandlers.cpp)\<close>

text \<open>
  Modelled from the spec: Error.h is not among the sources. An \<open>Error\<close> is the value of an enumerator of
  \<^verbatim>\<open>enum class Error\<close>, a 32-bit \<^verbatim>\<open>int\<close>, and \<^verbatim>\<open>Error::None\<close> is 0. The kinds other
  than \<^verbatim>\<open>None\<close> are the values whose negations the system-call interface reserves for
  errors, \<open>1\<close> to \<open>4095\<close>.
\<close>

type_synonym Error = "32 word"

definition Error_None :: Error where
  "Error_None = 0"

definition errorKind :: "Error \<Rightarrow> bool" where
  "errorKind e = (1 \<le> sint e \<and> sint e \<le> 4095)"

text \<open>
  \<^verbatim>\<open>SystemCall\<close> (SystemCall.cpp) is not among the sources; it is a parameter. It gets
  the call number, the six arguments, the frame it may write through the pointer, and the
  rest of the kernel state; it gives back its return value, the error it left in the
  reference parameter, the frame and the kernel state.
\<close>

definition SystemCallHandler ::
  "(u64 \<Rightarrow> u64 \<Rightarrow> u64 \<Rightarrow> u64 \<Rightarrow> u64 \<Rightarrow> u64 \<Rightarrow> u64 \<Rightarrow> InterruptFrame \<Rightarrow> 'k
      \<Rightarrow> u64 \<times> Error \<times> InterruptFrame \<times> 'k)
   \<Rightarrow> InterruptFrame \<Rightarrow> 'k \<Rightarrow> InterruptFrame \<times> 'k" where
  "SystemCallHandler SystemCall interruptFrame kernelState =
     (let (returnValue, error, frame1, kernel1) =
            SystemCall (rax interruptFrame) (rdi interruptFrame) (rsi interruptFrame)
              (rdx interruptFrame) (rcx interruptFrame) (r8 interruptFrame)
              (r9 interruptFrame) interruptFrame kernelState;
          frame2 = frame1\<lparr>rax := returnValue\<rparr>
      in (if error \<noteq> Error_None then frame2\<lparr>rax := - scast error\<rparr> else frame2, kernel1))"

text \<open>An example handler: call 0 fails with kind 1, every other call returns its number.\<close>

definition exampleSystemCall ::
  "u64 \<Rightarrow> u64 \<Rightarrow> u64 \<Rightarrow> u64 \<Rightarrow> u64 \<Rightarrow> u64 \<Rightarrow> u64 \<Rightarrow> InterruptFrame \<Rightarrow> unit
     \<Rightarrow> u64 \<times> Error \<times> InterruptFrame \<times> unit" where
  "exampleSystemCall number a0 a1 a2 a3 a4 a5 fr k =
     (if number = 0 then (0, 1, fr, k) else (number, Error_None, fr, k))"

section \<open>The ELF loader (ELFLoader.cpp)\<close>

text \<open>
  Modelled from the spec: ELF.h is not among the sources. The two enumerations are the ones the loader switches
  on, with one more value for every other number. Of the header and of a program header
  the fields are those the loader reads; \<open>eIdentMagic\<close> is the array, by index.
\<close>

datatype ELFType = Executable | Shared | OtherELFType

datatype ProgramHeaderType = Load | ProgramHeaderTable | Interpreter | OtherProgramHeaderType

record ELFHeader =
  eIdentMagic :: "nat \<Rightarrow> u8"
  type :: ELFType
  entry :: u64
  programHeaderTableEntrySize :: u16
  programHeaderTableEntryCount :: u16

record ProgramHeader =
  type :: ProgramHeaderType
  offsetInFile :: u64
  virtAddr :: u64
  segmentSizeInFile :: u64
  segmentSizeInMemory :: u64

text \<open>
  The VFS interface the loader calls (\<^verbatim>\<open>VFS::Open\<close>, \<^verbatim>\<open>VFS::Read\<close>,
  \<^verbatim>\<open>VFS::RepositionOffset\<close> on a path and a descriptor) is not among the sources. A file
  is given by what the loader's reads find in it: the ELF header at its start (\<open>None\<close>
  when the file is shorter than the header), the complete program headers that follow the
  header, and the C string found at an offset when so many bytes are read there. A path
  that \<^verbatim>\<open>VFS::Open\<close> cannot open has no file. \<open>sizeofProgramHeader\<close> is
  \<^verbatim>\<open>sizeof(ProgramHeader)\<close>.
\<close>

record ELFFile =
  elfHeader :: "ELFHeader option"
  programHeaderTable :: "ProgramHeader list"
  stringAt :: "u64 \<Rightarrow> u64 \<Rightarrow> string"

record ELFEnv =
  files :: "string \<Rightarrow> ELFFile option"
  sizeofProgramHeader :: u16

text \<open>
  What a load has produced so far: the two reference parameters \<^verbatim>\<open>entry\<close> and
  \<^verbatim>\<open>stackPtr\<close>, the virtual pages mapped in the paging manager, in order, and the words
  pushed on the new user stack, in order. The bytes copied into the mapped frames are not
  part of the model.
\<close>

record Loaded =
  loadedEntry :: u64
  loadedStackPtr :: u64
  mappedPages :: "u64 list"
  pushedWords :: "u64 list"

definition USER_STACK_BASE :: u64 where
  "USER_STACK_BASE = 0x0000800000000000 - 0x1000"

definition USER_STACK_SIZE :: u64 where
  "USER_STACK_SIZE = 0x2000"

definition RTDL_ADDR :: u64 where
  "RTDL_ADDR = 0x40000000"

text \<open>\<^verbatim>\<open>LoadProgramHeader\<close>: the pages it maps, one per iteration of its loop.\<close>

definition LoadProgramHeader :: "ProgramHeader \<Rightarrow> ELFHeader \<Rightarrow> u64 list" where
  "LoadProgramHeader programHeader header =
     (let segmentPagesCount = (segmentSizeInMemory programHeader - 1) div 0x1000 + 1;
          baseAddr = (if ELFHeader.type header = Shared
                      then virtAddr programHeader + RTDL_ADDR else virtAddr programHeader)
      in map (\<lambda>page. let address = baseAddr + of_nat page * 0x1000
                      in address - address mod 0x1000)
             [0..<unat segmentPagesCount])"

text \<open>
  The part of \<^verbatim>\<open>LoadELF\<close> after the loop over the program headers.
\<close>

definition finishLoad :: "ELFHeader \<Rightarrow> bool \<Rightarrow> u64 \<Rightarrow> Loaded \<Rightarrow> Loaded" where
  "finishLoad header hasDynamicLinking programHeaderTableAddr st =
     (if ELFHeader.type header = Shared
      then st\<lparr>loadedEntry := RTDL_ADDR + entry header\<rparr>
      else if ELFHeader.type header = Executable
      then (let stackLowestVirtAddr = USER_STACK_BASE - USER_STACK_SIZE;
                st1 = st\<lparr>mappedPages := mappedPages st @
                             [stackLowestVirtAddr, stackLowestVirtAddr + 0x1000]\<rparr>
            in if hasDynamicLinking
               then st1\<lparr>pushedWords := pushedWords st1 @
                          [0, 0, programHeaderTableAddr, 3,
                           ucast (programHeaderTableEntrySize header), 4,
                           ucast (programHeaderTableEntryCount header), 5,
                           entry header, 9, 0, 0, 0],
                        loadedStackPtr := USER_STACK_BASE - 13 * 8\<rparr>
               else st1\<lparr>loadedEntry := entry header, loadedStackPtr := USER_STACK_BASE\<rparr>)
      else st)"

text \<open>
  \<^verbatim>\<open>LoadELF\<close> calls itself for the interpreter of an image, and nothing bounds the chain
  of interpreters, so the function takes fuel, one unit per call: \<open>None\<close> is a load that
  needs more calls than the fuel allows. A failed \<^verbatim>\<open>Assert\<close> is \<open>Some (Inl AssertFailed)\<close>.
  \<open>LoadELF_headers\<close> is the \<^verbatim>\<open>for\<close> loop over the program headers, with
  \<open>hasDynamicLinking\<close> and \<open>programHeaderTableAddr\<close> in its state.
\<close>

fun LoadELF :: "nat \<Rightarrow> ELFEnv \<Rightarrow> string \<Rightarrow> Loaded \<Rightarrow> (halt + Loaded) option"
  and LoadELF_headers ::
    "nat \<Rightarrow> ELFEnv \<Rightarrow> ELFFile \<Rightarrow> ELFHeader \<Rightarrow> ProgramHeader list \<Rightarrow> bool \<Rightarrow> u64 \<Rightarrow> Loaded
       \<Rightarrow> (halt + bool \<times> u64 \<times> Loaded) option" where
  "LoadELF 0 env path st = None"
| "LoadELF (Suc fuel) env path st =
     (case files env path of
        None \<Rightarrow> Some (Inl AssertFailed)
      | Some file \<Rightarrow>
         (case elfHeader file of
            None \<Rightarrow> Some (Inl AssertFailed)
          | Some header \<Rightarrow>
             (if \<not> (eIdentMagic header 0 = 0x7f \<and> eIdentMagic header 1 = 0x45 \<and>
                     eIdentMagic header 2 = 0x4c \<and> eIdentMagic header 3 = 0x46)
              then Some (Inl AssertFailed)
              else if programHeaderTableEntrySize header \<noteq> sizeofProgramHeader env
              then Some (Inl AssertFailed)
              else if \<not> (ELFHeader.type header = Executable \<or> ELFHeader.type header = Shared)
              then Some (Inl AssertFailed)
              else if length (programHeaderTable file) < unat (programHeaderTableEntryCount header)
              then Some (Inl AssertFailed)
              else
                (case LoadELF_headers fuel env file header
                        (take (unat (programHeaderTableEntryCount header))
                           (programHeaderTable file)) False 0 st of
                   None \<Rightarrow> None
                 | Some (Inl e) \<Rightarrow> Some (Inl e)
                 | Some (Inr (hasDynamicLinking, programHeaderTableAddr, st1)) \<Rightarrow>
                     Some (Inr (finishLoad header hasDynamicLinking programHeaderTableAddr st1))))))"
| "LoadELF_headers fuel env file header [] hasDynamicLinking programHeaderTableAddr st =
     Some (Inr (hasDynamicLinking, programHeaderTableAddr, st))"
| "LoadELF_headers fuel env file header (programHeader # rest) hasDynamicLinking
     programHeaderTableAddr st =
     (case ProgramHeader.type programHeader of
        Load \<Rightarrow>
          LoadELF_headers fuel env file header rest hasDynamicLinking programHeaderTableAddr
            (st\<lparr>mappedPages := mappedPages st @ LoadProgramHeader programHeader header\<rparr>)
      | ProgramHeaderTable \<Rightarrow>
          LoadELF_headers fuel env file header rest hasDynamicLinking
            (virtAddr programHeader) st
      | Interpreter \<Rightarrow>
          (case LoadELF fuel env
                  (stringAt file (offsetInFile programHeader) (segmentSizeInFile programHeader))
                  st of
             None \<Rightarrow> None
           | Some (Inl e) \<Rightarrow> Some (Inl e)
           | Some (Inr st') \<Rightarrow>
               LoadELF_headers fuel env file header rest True programHeaderTableAddr st')
      | OtherProgramHeaderType \<Rightarrow>
          LoadELF_headers fuel env file header rest hasDynamicLinking programHeaderTableAddr st)"

subsection \<open>Example images\<close>

definition elfMagic :: "nat \<Rightarrow> u8" where
  "elfMagic i = (if i = 0 then 0x7f else if i = 1 then 0x45 else if i = 2 then 0x4c
                 else if i = 3 then 0x46 else 0)"

definition exampleInterpreter :: ELFFile where
  "exampleInterpreter =
     \<lparr>elfHeader = Some \<lparr>eIdentMagic = elfMagic, type = Shared, entry = 0x1040,
                         programHeaderTableEntrySize = 56, programHeaderTableEntryCount = 1\<rparr>,
      programHeaderTable =
        [\<lparr>type = Load, offsetInFile = 0, virtAddr = 0, segmentSizeInFile = 0x1800,
          segmentSizeInMemory = 0x2000\<rparr>],
      stringAt = (\<lambda>position count. [])\<rparr>"

definition exampleInit :: ELFFile where
  "exampleInit =
     \<lparr>elfHeader = Some \<lparr>eIdentMagic = elfMagic, type = Executable, entry = 0x401000,
                         programHeaderTableEntrySize = 56, programHeaderTableEntryCount = 2\<rparr>,
      programHeaderTable =
        [\<lparr>type = Interpreter, offsetInFile = 0x200, virtAddr = 0, segmentSizeInFile = 10,
          segmentSizeInMemory = 10\<rparr>,
         \<lparr>type = Load, offsetInFile = 0, virtAddr = 0x400000, segmentSizeInFile = 0x1000,
          segmentSizeInMemory = 0x1000\<rparr>],
      stringAt = (\<lambda>position count. if position = 0x200 then ''/lib/ld.so'' else [])\<rparr>"

definition exampleELFEnv :: ELFEnv where
  "exampleELFEnv =
     \<lparr>files = (\<lambda>path. if path = ''/lib/ld.so'' then Some exampleInterpreter
                       else if path = ''/bin/init'' then Some exampleInit else None),
      sizeofProgramHeader = 56\<rparr>"

definition emptyLoaded :: Loaded where
  "emptyLoaded = \<lparr>loadedEntry = 0, loadedStackPtr = 0, mappedPages = [], pushedWords = []\<rparr>"

section \<open>Properties of Unblock and Unsuspend\<close>

lemma GetTask_Inr:
  "GetTask p q = Inr i \<Longrightarrow> i < length q \<and> pid (q ! i) = p \<and> (\<forall>j<i. pid (q ! j) \<noteq> p)"
proof (induction q arbitrary: i)
  case Nil
  then show ?case by simp
next
  case (Cons t ts)
  show ?case
  proof (cases "pid t = p")
    case True
    with Cons.prems show ?thesis by simp
  next
    case False
    with Cons.prems obtain k where k: "GetTask p ts = Inr k" "i = Suc k"
      by (auto split: sum.splits)
    from Cons.IH [OF k(1)] have "k < length ts" "pid (ts ! k) = p" "\<forall>j<k. pid (ts ! j) \<noteq> p"
      by simp_all
    with False k(2) show ?thesis
      by (auto simp: nth_Cons split: nat.splits)
  qed
qed

lemma GetTask_first:
  "i < length q \<Longrightarrow> pid (q ! i) = p \<Longrightarrow> \<forall>j<i. pid (q ! j) \<noteq> p \<Longrightarrow> GetTask p q = Inr i"
proof (induction q arbitrary: i)
  case Nil
  then show ?case by simp
next
  case (Cons t ts)
  show ?case
  proof (cases i)
    case 0
    with Cons.prems show ?thesis by simp
  next
    case (Suc k)
    with Cons.prems have "pid t \<noteq> p" by auto
    moreover from Suc Cons.prems have "GetTask p ts = Inr k"
      by (intro Cons.IH) auto
    ultimately show ?thesis using Suc by simp
  qed
qed

lemma GetTask_Panic: "(GetTask p q = Inl e) = (e = Panic \<and> p \<notin> pid ` set q)"
  by (induction q) (auto split: sum.splits)

text \<open>
  C8. \<^verbatim>\<open>Unblock(pid)\<close> on a queue whose first task with that PID is \<^verbatim>\<open>Blocked\<close>
  returns, and the queue it leaves differs from the old one in that task alone, which
  differs in its state alone: the state is \<^verbatim>\<open>Normal\<close> and the whole saved frame (the
  return register \<^verbatim>\<open>rax\<close> included) is what it was. \<^verbatim>\<open>Unsuspend(pid, value)\<close> on a
  queue whose first task with that PID is \<^verbatim>\<open>Blocked\<close> or \<^verbatim>\<open>WaitingForChild\<close> returns,
  and the queue it leaves differs in that task alone: its state is \<^verbatim>\<open>Normal\<close> and its
  frame is the old frame with \<^verbatim>\<open>rax\<close> set to the value, nothing else changed. Neither
  returns in any other case.
\<close>

theorem Unblock_Unsuspend_frame_effect:
  "(Unblock p q = Inr q' \<longrightarrow>
      (\<exists>i<length q. pid (q ! i) = p \<and> (\<forall>j<i. pid (q ! j) \<noteq> p) \<and>
         state (q ! i) = Blocked \<and> length q' = length q \<and>
         state (q' ! i) = Normal \<and> frame (q' ! i) = frame (q ! i) \<and>
         rax (frame (q' ! i)) = rax (frame (q ! i)) \<and>
         q' ! i = (q ! i)\<lparr>state := Normal\<rparr> \<and>
         (\<forall>j<length q. j \<noteq> i \<longrightarrow> q' ! j = q ! j)))
   \<and>
   (Unsuspend p v q = Inr q'' \<longrightarrow>
      (\<exists>i<length q. pid (q ! i) = p \<and> (\<forall>j<i. pid (q ! j) \<noteq> p) \<and>
         (state (q ! i) = Blocked \<or> state (q ! i) = WaitingForChild) \<and>
         length q'' = length q \<and>
         state (q'' ! i) = Normal \<and> frame (q'' ! i) = (frame (q ! i))\<lparr>rax := v\<rparr> \<and>
         q'' ! i = (q ! i)\<lparr>frame := (frame (q ! i))\<lparr>rax := v\<rparr>, state := Normal\<rparr> \<and>
         (\<forall>j<length q. j \<noteq> i \<longrightarrow> q'' ! j = q ! j)))
   \<and>
   (k < length q \<and> pid (q ! k) = p \<and> (\<forall>j<k. pid (q ! j) \<noteq> p) \<and> state (q ! k) = Blocked \<longrightarrow>
      Unblock p q = Inr (q[k := (q ! k)\<lparr>state := Normal\<rparr>]) \<and>
      state (q[k := (q ! k)\<lparr>state := Normal\<rparr>] ! k) = Normal \<and>
      frame (q[k := (q ! k)\<lparr>state := Normal\<rparr>] ! k) = frame (q ! k))
   \<and>
   (k < length q \<and> pid (q ! k) = p \<and> (\<forall>j<k. pid (q ! j) \<noteq> p) \<and>
    (state (q ! k) = Blocked \<or> state (q ! k) = WaitingForChild) \<longrightarrow>
      Unsuspend p v q
        = Inr (q[k := (q ! k)\<lparr>frame := (frame (q ! k))\<lparr>rax := v\<rparr>, state := Normal\<rparr>]) \<and>
      state (q[k := (q ! k)\<lparr>frame := (frame (q ! k))\<lparr>rax := v\<rparr>, state := Normal\<rparr>] ! k)
        = Normal \<and>
      frame (q[k := (q ! k)\<lparr>frame := (frame (q ! k))\<lparr>rax := v\<rparr>, state := Normal\<rparr>] ! k)
        = (frame (q ! k))\<lparr>rax := v\<rparr>)"
proof (intro conjI impI)
  assume u: "Unblock p q = Inr q'"
  then obtain i where i: "GetTask p q = Inr i"
    by (auto simp: Unblock_def split: sum.splits)
  from GetTask_Inr [OF i] have b: "i < length q" "pid (q ! i) = p" "\<forall>j<i. pid (q ! j) \<noteq> p"
    by simp_all
  from u i have s: "state (q ! i) = Blocked" "q' = q[i := (q ! i)\<lparr>state := Normal\<rparr>]"
    by (auto simp: Unblock_def split: if_splits)
  show "\<exists>i<length q. pid (q ! i) = p \<and> (\<forall>j<i. pid (q ! j) \<noteq> p) \<and>
         state (q ! i) = Blocked \<and> length q' = length q \<and>
         state (q' ! i) = Normal \<and> frame (q' ! i) = frame (q ! i) \<and>
         rax (frame (q' ! i)) = rax (frame (q ! i)) \<and>
         q' ! i = (q ! i)\<lparr>state := Normal\<rparr> \<and>
         (\<forall>j<length q. j \<noteq> i \<longrightarrow> q' ! j = q ! j)"
    using b s by (intro exI [of _ i]) simp
next
  assume u: "Unsuspend p v q = Inr q''"
  then obtain i where i: "GetTask p q = Inr i"
    by (auto simp: Unsuspend_def split: sum.splits)
  from GetTask_Inr [OF i] have b: "i < length q" "pid (q ! i) = p" "\<forall>j<i. pid (q ! j) \<noteq> p"
    by simp_all
  from u i have s: "state (q ! i) = Blocked \<or> state (q ! i) = WaitingForChild"
    "q'' = q[i := (q ! i)\<lparr>frame := (frame (q ! i))\<lparr>rax := v\<rparr>, state := Normal\<rparr>]"
    by (auto simp: Unsuspend_def split: if_splits)
  show "\<exists>i<length q. pid (q ! i) = p \<and> (\<forall>j<i. pid (q ! j) \<noteq> p) \<and>
         (state (q ! i) = Blocked \<or> state (q ! i) = WaitingForChild) \<and>
         length q'' = length q \<and>
         state (q'' ! i) = Normal \<and> frame (q'' ! i) = (frame (q ! i))\<lparr>rax := v\<rparr> \<and>
         q'' ! i = (q ! i)\<lparr>frame := (frame (q ! i))\<lparr>rax := v\<rparr>, state := Normal\<rparr> \<and>
         (\<forall>j<length q. j \<noteq> i \<longrightarrow> q'' ! j = q ! j)"
    using b s by (intro exI [of _ i]) auto
next
  assume a: "k < length q \<and> pid (q ! k) = p \<and> (\<forall>j<k. pid (q ! j) \<noteq> p) \<and>
             state (q ! k) = Blocked"
  then have "GetTask p q = Inr k" by (intro GetTask_first) simp_all
  with a show "Unblock p q = Inr (q[k := (q ! k)\<lparr>state := Normal\<rparr>])"
    by (simp add: Unblock_def)
  from a show "state (q[k := (q ! k)\<lparr>state := Normal\<rparr>] ! k) = Normal" by simp
  from a show "frame (q[k := (q ! k)\<lparr>state := Normal\<rparr>] ! k) = frame (q ! k)" by simp
next
  assume a: "k < length q \<and> pid (q ! k) = p \<and> (\<forall>j<k. pid (q ! j) \<noteq> p) \<and>
             (state (q ! k) = Blocked \<or> state (q ! k) = WaitingForChild)"
  then have "GetTask p q = Inr k" by (intro GetTask_first) simp_all
  with a show "Unsuspend p v q
        = Inr (q[k := (q ! k)\<lparr>frame := (frame (q ! k))\<lparr>rax := v\<rparr>, state := Normal\<rparr>])"
    by (auto simp: Unsuspend_def)
  from a show
    "state (q[k := (q ! k)\<lparr>frame := (frame (q ! k))\<lparr>rax := v\<rparr>, state := Normal\<rparr>] ! k) = Normal"
    by simp
  from a show
    "frame (q[k := (q ! k)\<lparr>frame := (frame (q ! k))\<lparr>rax := v\<rparr>, state := Normal\<rparr>] ! k)
       = (frame (q ! k))\<lparr>rax := v\<rparr>"
    by simp
qed

theorem Unblock_Unsuspend_frame_effect_witness:
  "Unblock 2 blockedExample = Inr [exampleTask 1 Normal, exampleTask 2 Normal] \<and>
   Unsuspend 2 9 blockedExample
     = Inr [exampleTask 1 Normal,
            (exampleTask 2 Normal)\<lparr>frame := (frame (exampleTask 2 Normal))\<lparr>rax := 9\<rparr>\<rparr>] \<and>
   Unsuspend 2 9 waitingExample
     = Inr [exampleTask 1 Normal,
            (exampleTask 2 Normal)\<lparr>frame := (frame (exampleTask 2 Normal))\<lparr>rax := 9\<rparr>\<rparr>] \<and>
   (\<exists>i<length blockedExample. state (blockedExample ! i) = Blocked \<and>
      frame ([exampleTask 1 Normal, exampleTask 2 Normal] ! i) = frame (blockedExample ! i)) \<and>
   (\<exists>i<length waitingExample. state (waitingExample ! i) = WaitingForChild \<and>
      frame ([exampleTask 1 Normal,
              (exampleTask 2 Normal)\<lparr>frame := (frame (exampleTask 2 Normal))\<lparr>rax := 9\<rparr>\<rparr>] ! i)
        = (frame (waitingExample ! i))\<lparr>rax := 9\<rparr>)"
proof -
  let ?q1 = "[exampleTask 1 Normal, exampleTask 2 Normal]"
  let ?q2 = "[exampleTask 1 Normal,
              (exampleTask 2 Normal)\<lparr>frame := (frame (exampleTask 2 Normal))\<lparr>rax := 9\<rparr>\<rparr>]"
  have pb: "1 < length blockedExample \<and> pid (blockedExample ! 1) = 2 \<and>
            (\<forall>j<1. pid (blockedExample ! j) \<noteq> 2) \<and> state (blockedExample ! 1) = Blocked"
    by (simp add: blockedExample_def exampleTask_def zeroTask_def)
  have pw: "1 < length waitingExample \<and> pid (waitingExample ! 1) = 2 \<and>
            (\<forall>j<1. pid (waitingExample ! j) \<noteq> 2) \<and>
            (state (waitingExample ! 1) = Blocked \<or> state (waitingExample ! 1) = WaitingForChild)"
    by (simp add: waitingExample_def exampleTask_def zeroTask_def)
  note atBlocked = Unblock_Unsuspend_frame_effect [of 2 blockedExample ?q1 9 ?q2 1]
  note atWaiting = Unblock_Unsuspend_frame_effect [of 2 waitingExample ?q1 9 ?q2 1]
  from atBlocked [THEN conjunct2, THEN conjunct2, THEN conjunct1] pb
  have "Unblock 2 blockedExample
          = Inr (blockedExample[1 := (blockedExample ! 1)\<lparr>state := Normal\<rparr>]) \<and>
      state (blockedExample[1 := (blockedExample ! 1)\<lparr>state := Normal\<rparr>] ! 1) = Normal \<and>
      frame (blockedExample[1 := (blockedExample ! 1)\<lparr>state := Normal\<rparr>] ! 1)
        = frame (blockedExample ! 1)"
    by (rule mp)
  then have h1: "Unblock 2 blockedExample = Inr ?q1"
    by (simp add: blockedExample_def exampleTask_def zeroTask_def)
  have pb': "1 < length blockedExample \<and> pid (blockedExample ! 1) = 2 \<and>
            (\<forall>j<1. pid (blockedExample ! j) \<noteq> 2) \<and>
            (state (blockedExample ! 1) = Blocked \<or> state (blockedExample ! 1) = WaitingForChild)"
    using pb by simp
  from atBlocked [THEN conjunct2, THEN conjunct2, THEN conjunct2] pb'
  have "Unsuspend 2 9 blockedExample
        = Inr (blockedExample[1 := (blockedExample ! 1)
                 \<lparr>frame := (frame (blockedExample ! 1))\<lparr>rax := 9\<rparr>, state := Normal\<rparr>]) \<and>
      state (blockedExample[1 := (blockedExample ! 1)
                 \<lparr>frame := (frame (blockedExample ! 1))\<lparr>rax := 9\<rparr>, state := Normal\<rparr>] ! 1)
        = Normal \<and>
      frame (blockedExample[1 := (blockedExample ! 1)
                 \<lparr>frame := (frame (blockedExample ! 1))\<lparr>rax := 9\<rparr>, state := Normal\<rparr>] ! 1)
        = (frame (blockedExample ! 1))\<lparr>rax := 9\<rparr>"
    by (rule mp)
  then have h2: "Unsuspend 2 9 blockedExample = Inr ?q2"
    by (simp add: blockedExample_def exampleTask_def zeroTask_def)
  from atWaiting [THEN conjunct2, THEN conjunct2, THEN conjunct2] pw
  have "Unsuspend 2 9 waitingExample
        = Inr (waitingExample[1 := (waitingExample ! 1)
                 \<lparr>frame := (frame (waitingExample ! 1))\<lparr>rax := 9\<rparr>, state := Normal\<rparr>]) \<and>
      state (waitingExample[1 := (waitingExample ! 1)
                 \<lparr>frame := (frame (waitingExample ! 1))\<lparr>rax := 9\<rparr>, state := Normal\<rparr>] ! 1)
        = Normal \<and>
      frame (waitingExample[1 := (waitingExample ! 1)
                 \<lparr>frame := (frame (waitingExample ! 1))\<lparr>rax := 9\<rparr>, state := Normal\<rparr>] ! 1)
        = (frame (waitingExample ! 1))\<lparr>rax := 9\<rparr>"
    by (rule mp)
  then have h3: "Unsuspend 2 9 waitingExample = Inr ?q2"
    by (simp add: waitingExample_def exampleTask_def zeroTask_def)
  from atBlocked [THEN conjunct1] h1
  have "\<exists>i<length blockedExample. pid (blockedExample ! i) = 2 \<and>
         (\<forall>j<i. pid (blockedExample ! j) \<noteq> 2) \<and>
         state (blockedExample ! i) = Blocked \<and> length ?q1 = length blockedExample \<and>
         state (?q1 ! i) = Normal \<and> frame (?q1 ! i) = frame (blockedExample ! i) \<and>
         rax (frame (?q1 ! i)) = rax (frame (blockedExample ! i)) \<and>
         ?q1 ! i = (blockedExample ! i)\<lparr>state := Normal\<rparr> \<and>
         (\<forall>j<length blockedExample. j \<noteq> i \<longrightarrow> ?q1 ! j = blockedExample ! j)"
    by (rule mp)
  then obtain i where "i < length blockedExample" "state (blockedExample ! i) = Blocked"
    "frame (?q1 ! i) = frame (blockedExample ! i)"
    by (elim exE conjE)
  then have e1: "\<exists>i<length blockedExample. state (blockedExample ! i) = Blocked \<and>
      frame (?q1 ! i) = frame (blockedExample ! i)"
    by (intro exI [of _ i] conjI)
  from atWaiting [THEN conjunct2, THEN conjunct1] h3
  have "\<exists>i<length waitingExample. pid (waitingExample ! i) = 2 \<and>
         (\<forall>j<i. pid (waitingExample ! j) \<noteq> 2) \<and>
         (state (waitingExample ! i) = Blocked \<or> state (waitingExample ! i) = WaitingForChild) \<and>
         length ?q2 = length waitingExample \<and>
         state (?q2 ! i) = Normal \<and> frame (?q2 ! i) = (frame (waitingExample ! i))\<lparr>rax := 9\<rparr> \<and>
         ?q2 ! i = (waitingExample ! i)\<lparr>frame := (frame (waitingExample ! i))\<lparr>rax := 9\<rparr>,
                                         state := Normal\<rparr> \<and>
         (\<forall>j<length waitingExample. j \<noteq> i \<longrightarrow> ?q2 ! j = waitingExample ! j)"
    by (rule mp)
  then obtain m where m: "m < length waitingExample" "pid (waitingExample ! m) = 2"
    "frame (?q2 ! m) = (frame (waitingExample ! m))\<lparr>rax := 9\<rparr>"
    by (elim exE conjE)
  from m(1,2) have "m = 1"
    by (auto simp: waitingExample_def exampleTask_def zeroTask_def less_Suc_eq)
  then have "state (waitingExample ! m) = WaitingForChild"
    by (simp add: waitingExample_def exampleTask_def zeroTask_def)
  with m have e2: "\<exists>i<length waitingExample. state (waitingExample ! i) = WaitingForChild \<and>
      frame (?q2 ! i) = (frame (waitingExample ! i))\<lparr>rax := 9\<rparr>"
    by (intro exI [of _ m] conjI)
  show ?thesis
    by (intro conjI) (rule h1 h2 h3 e1 e2)+
qed

section \<open>Properties of the timer protocol\<close>








lemma GetTask_pids: "map Task.pid q = map Task.pid q' \<Longrightarrow> GetTask p q = GetTask p q'"
proof (induction q arbitrary: q')
  case Nil
  then show ?case by simp
next
  case (Cons t ts)
  then obtain t' ts' where q': "q' = t' # ts'" by (cases q') auto
  with Cons.prems have "Task.pid t = Task.pid t'" "map Task.pid ts = map Task.pid ts'"
    by simp_all
  with Cons.IH [of ts'] q' show ?case by simp
qed

lemma Unblock_Inr:
  assumes "Unblock p q = Inr q'"
  shows "\<exists>i<length q. GetTask p q = Inr i \<and> state (q ! i) = Blocked \<and>
           q' = q[i := (q ! i)\<lparr>state := Normal\<rparr>]"
proof -
  from assms obtain i where i: "GetTask p q = Inr i"
    by (auto simp: Unblock_def split: sum.splits)
  with assms have "state (q ! i) = Blocked" "q' = q[i := (q ! i)\<lparr>state := Normal\<rparr>]"
    by (auto simp: Unblock_def split: if_splits)
  with i GetTask_Inr [OF i] show ?thesis by blast
qed

lemma Unblock_pids:
  assumes "Unblock p q = Inr q'"
  shows "map Task.pid q' = map Task.pid q"
proof -
  from Unblock_Inr [OF assms] obtain i where
    i: "i < length q" "q' = q[i := (q ! i)\<lparr>state := Normal\<rparr>]" by blast
  show ?thesis
  proof (rule nth_equalityI)
    show "length (map Task.pid q') = length (map Task.pid q)" using i by simp
  next
    fix j assume "j < length (map Task.pid q')"
    with i show "map Task.pid q' ! j = map Task.pid q ! j"
      by (cases "j = i") simp_all
  qed
qed

lemma Unblock_Normal_kept:
  assumes "Unblock p q = Inr q'" "j < length q" "state (q ! j) = Normal"
  shows "state (q' ! j) = Normal"
proof -
  from Unblock_Inr [OF assms(1)] obtain i where
    i: "i < length q" "q' = q[i := (q ! i)\<lparr>state := Normal\<rparr>]" by blast
  with assms(2,3) show ?thesis by (cases "j = i") simp_all
qed

lemma Unblock_Blocked_before:
  assumes "Unblock p q = Inr q'" "j < length q" "state (q' ! j) = Blocked"
  shows "state (q ! j) = Blocked"
proof -
  from Unblock_Inr [OF assms(1)] obtain i where
    i: "i < length q" "q' = q[i := (q ! i)\<lparr>state := Normal\<rparr>]" by blast
  with assms(2,3) show ?thesis by (cases "j = i") simp_all
qed

lemma Unblock_length: "Unblock p q = Inr q' \<Longrightarrow> length q' = length q"
  using Unblock_Inr [of p q q'] by auto


lemma UnblockAll_Normal_kept:
  "UnblockAll ps q = Inr q' \<Longrightarrow> j < length q \<Longrightarrow> state (q ! j) = Normal \<Longrightarrow>
   state (q' ! j) = Normal"
proof (induction ps arbitrary: q)
  case Nil
  then show ?case by simp
next
  case (Cons p ps)
  from Cons.prems(1) obtain q1 where q1: "Unblock p q = Inr q1" "UnblockAll ps q1 = Inr q'"
    by (auto split: if_splits sum.splits)
  have "length q1 = length q" by (rule Unblock_length [OF q1(1)])
  with Cons.IH [OF q1(2)] Unblock_Normal_kept [OF q1(1)] Cons.prems(2,3) show ?case
    by simp
qed

lemma UnblockAll_effect:
  "UnblockAll ps q = Inr q' \<Longrightarrow> p \<in> set ps \<Longrightarrow>
   \<exists>i<length q. GetTask p q = Inr i \<and> state (q ! i) = Blocked \<and> state (q' ! i) = Normal"
proof (induction ps arbitrary: q)
  case Nil
  then show ?case by simp
next
  case (Cons a ps)
  from Cons.prems(1) obtain q1 where q1: "Unblock a q = Inr q1" "UnblockAll ps q1 = Inr q'"
    by (auto split: if_splits sum.splits)
  have pids: "map Task.pid q1 = map Task.pid q" by (rule Unblock_pids [OF q1(1)])
  have len: "length q1 = length q" by (rule Unblock_length [OF q1(1)])
  show ?case
  proof (cases "p = a")
    case True
    from q1(1) obtain i where i: "GetTask a q = Inr i" "state (q ! i) = Blocked"
      "q1 = q[i := (q ! i)\<lparr>state := Normal\<rparr>]"
      by (auto simp: Unblock_def split: sum.splits if_splits)
    from GetTask_Inr [OF i(1)] have il: "i < length q" by simp
    with i(3) have "state (q1 ! i) = Normal" by simp
    with UnblockAll_Normal_kept [OF q1(2)] il len have "state (q' ! i) = Normal" by simp
    with True i il show ?thesis by auto
  next
    case False
    with Cons.prems(2) have "p \<in> set ps" by simp
    from Cons.IH [OF q1(2) this] obtain i where
      i: "i < length q1" "GetTask p q1 = Inr i" "state (q1 ! i) = Blocked" "state (q' ! i) = Normal"
      by auto
    from GetTask_pids [OF pids] i(2) have "GetTask p q = Inr i" by simp
    moreover from Unblock_Blocked_before [OF q1(1)] i(1,3) len have "state (q ! i) = Blocked"
      by simp
    ultimately show ?thesis using i len by auto
  qed
qed











section \<open>The task selection of SwitchToNextTask\<close>

text \<open>
  C1. A timer tick with the running task 3 (state \<^verbatim>\<open>Normal\<close>, frame saved) and the run
  queue holding the \<^verbatim>\<open>Normal\<close> tasks 1 and 2, in this order. Round-robin selection would
  run task 1 and leave the queue 2, 3. The loop pops task 1 at index 0, goes on at
  index 1 of the shortened queue, where the outgoing task 3 now sits, and pops it as well:
  task 3 runs again, the queue holds task 2 alone, and task 1 is neither running nor
  queued.
\<close>

theorem SwitchToNextTask_pops_past_first_Normal:
  "(case SwitchToNextTask 0 zeroFrame
           ((exampleScheduler [exampleTask 1 Normal, exampleTask 2 Normal] [])
              \<lparr>currentTask := exampleTask 3 Normal, restoreFrame := True\<rparr>) of
      Inl e \<Rightarrow> False
    | Inr (fr', s') \<Rightarrow>
        Task.pid (currentTask s') = 3 \<and> map Task.pid (taskQueue s') = [2] \<and>
        taskQueue s' = [exampleTask 2 Normal])"
  by (simp add: SwitchToNextTask_def UpdateTimerEntries_def exampleScheduler_def
      selectLoop.simps Pop_def ConfigureTimerClosestExpiry_def closestExpiry_def
      exampleTask_def zeroTask_def Let_def)

lemma selectLoop_single_Normal:
  "selectLoop 0 (t # ts) c f =
     (if state t = Normal then selectLoop 1 ts t True else selectLoop 1 (t # ts) c f)"
  by (subst selectLoop.simps) (simp add: Pop_def)

section \<open>Properties of ForkCurrentTask\<close>

lemma MemCopy_loop_outside:
  "(\<forall>j. i \<le> j \<and> j < n \<longrightarrow> a \<noteq> dest + of_nat j) \<Longrightarrow> MemCopy_loop mem dest src i n a = mem a"
proof (induction mem dest src i n rule: MemCopy_loop.induct)
  case (1 mem dest src i count)
  show ?case
  proof (cases "i < count")
    case True
    have "MemCopy_loop mem dest src i count a =
          MemCopy_loop (mem(dest + of_nat i := mem (src + of_nat i))) dest src (Suc i) count a"
      using True by (subst MemCopy_loop.simps) simp
    also have "\<dots> = (mem(dest + of_nat i := mem (src + of_nat i))) a"
      using "1.prems" True by (intro "1.IH") auto
    also have "\<dots> = mem a"
      using "1.prems" True by auto
    finally show ?thesis .
  next
    case False
    then show ?thesis by (subst MemCopy_loop.simps) simp
  qed
qed

lemma of_nat_u64_inj:
  assumes "i < 2 ^ 64" "j < 2 ^ 64" "(of_nat i :: u64) = of_nat j"
  shows "i = j"
proof -
  from assms(3) have "unat (of_nat i :: u64) = unat (of_nat j :: u64)" by simp
  then have "i mod 2 ^ 64 = j mod 2 ^ 64" by (simp add: unat_of_nat)
  with assms(1,2) show ?thesis by simp
qed

lemma MemCopy_loop_copied:
  "(\<forall>j<n. \<forall>l<n. dest + of_nat j \<noteq> src + of_nat l) \<Longrightarrow> n \<le> 2 ^ 64 \<Longrightarrow>
   i \<le> m \<Longrightarrow> m < n \<Longrightarrow>
   MemCopy_loop mem dest src i n (dest + of_nat m) = mem (src + of_nat m)"
proof (induction mem dest src i n rule: MemCopy_loop.induct)
  case (1 mem dest src i count)
  let ?mem = "mem(dest + of_nat i := mem (src + of_nat i))"
  from "1.prems" have lt: "i < count" by simp
  have step: "MemCopy_loop mem dest src i count (dest + of_nat m) =
          MemCopy_loop ?mem dest src (Suc i) count (dest + of_nat m)"
    using lt by (subst MemCopy_loop.simps) simp
  show ?case
  proof (cases "m = i")
    case True
    have "\<forall>j. Suc i \<le> j \<and> j < count \<longrightarrow> dest + of_nat i \<noteq> dest + of_nat j"
    proof (intro allI impI)
      fix j assume j: "Suc i \<le> j \<and> j < count"
      with "1.prems"(2) have "i < 2 ^ 64" "j < 2 ^ 64" by simp_all
      with j show "dest + of_nat i \<noteq> dest + of_nat j"
        using of_nat_u64_inj [of i j] by auto
    qed
    from MemCopy_loop_outside [OF this]
    have "MemCopy_loop ?mem dest src (Suc i) count (dest + of_nat i) = ?mem (dest + of_nat i)" .
    with step True show ?thesis by simp
  next
    case False
    with "1.prems" have "Suc i \<le> m" by simp
    with "1.prems" lt have
      "MemCopy_loop ?mem dest src (Suc i) count (dest + of_nat m) = ?mem (src + of_nat m)"
      by (intro "1.IH") simp_all
    moreover have "src + of_nat m \<noteq> dest + of_nat i"
      using "1.prems" lt by metis
    ultimately show ?thesis using step by simp
  qed
qed

text \<open>
  What \<^verbatim>\<open>ForkCurrentTask\<close> does in every state: the child is appended to the run queue,
  its PID is the next one of the counter and is the value returned, its frame is the
  interrupt frame of the call with \<^verbatim>\<open>rax\<close> zero, its own stack region starts at the
  higher-half address of the frames it was given, and its \<open>syscallStackAddr\<close> is the
  parent's.
\<close>

lemma ForkCurrentTask_child:
  assumes "ForkCurrentTask k pm v ua pf fr s = (p, s')"
  shows "\<exists>child. taskQueue s' = taskQueue s @ [child] \<and> p = Task.pid child \<and>
     Task.pid child = nextPid s \<and> nextPid s' = nextPid s + 1 \<and>
     frame child = fr\<lparr>rax := 0\<rparr> \<and> rax (frame child) = 0 \<and>
     syscallStackBottom child = HigherHalf pf \<and>
     syscallStackAddr child = syscallStackAddr (currentTask s) \<and>
     memory s' = MemCopy (memory s) (HigherHalf pf) (syscallStackBottom (currentTask s)) 0x3000"
proof -
  define created where "created = fst (CreateTask k pm v ua 0 0 True True pf (nextPid s))"
  define child where
    "child = created\<lparr>frame := fr\<lparr>rax := 0\<rparr>,
                      syscallStackAddr := syscallStackAddr (currentTask s)\<rparr>"
  have c1: "Task.pid created = nextPid s"
    and c2: "syscallStackBottom created = HigherHalf pf"
    and c3: "snd (CreateTask k pm v ua 0 0 True True pf (nextPid s)) = nextPid s + 1"
    by (simp_all add: created_def CreateTask_def Let_def HigherHalf_def
        SYSCALL_STACK_PAGE_COUNT_def)
  have "ForkCurrentTask k pm v ua pf fr s =
      (Task.pid child,
       s\<lparr>memory := MemCopy (memory s) (syscallStackBottom created)
                      (syscallStackBottom (currentTask s)) 0x3000,
         nextPid := nextPid s + 1, taskQueue := taskQueue s @ [child]\<rparr>)"
    unfolding ForkCurrentTask_def child_def
    by (simp add: Let_def case_prod_beta created_def [symmetric] c3
        SYSCALL_STACK_PAGE_COUNT_def)
  with assms have p: "p = Task.pid child" and
    s': "s' = s\<lparr>memory := MemCopy (memory s) (syscallStackBottom created)
                      (syscallStackBottom (currentTask s)) 0x3000,
         nextPid := nextPid s + 1, taskQueue := taskQueue s @ [child]\<rparr>"
    by simp_all
  have "taskQueue s' = taskQueue s @ [child]" "nextPid s' = nextPid s + 1"
    "memory s' = MemCopy (memory s) (HigherHalf pf) (syscallStackBottom (currentTask s)) 0x3000"
    by (simp_all add: s' c2)
  moreover have "Task.pid child = nextPid s" "frame child = fr\<lparr>rax := 0\<rparr>"
    "rax (frame child) = 0" "syscallStackBottom child = HigherHalf pf"
    "syscallStackAddr child = syscallStackAddr (currentTask s)"
    by (simp_all add: child_def c1 c2)
  ultimately show ?thesis using p by blast
qed

text \<open>
  When the child's region and the parent's do not overlap, the child's region holds
  afterwards, byte for byte, what the parent's held at the call.
\<close>

lemma ForkCurrentTask_stack_copy:
  assumes "ForkCurrentTask k pm v ua pf fr s = (p, s')"
    and "\<forall>j<12288. \<forall>l<12288.
           HigherHalf pf + of_nat j \<noteq> syscallStackBottom (currentTask s) + of_nat l"
    and "m < 12288"
  shows "memory s' (HigherHalf pf + of_nat m) =
         memory s (syscallStackBottom (currentTask s) + of_nat m)"
proof -
  from ForkCurrentTask_child [OF assms(1)] have
    "memory s' = MemCopy (memory s) (HigherHalf pf) (syscallStackBottom (currentTask s)) 0x3000"
    by blast
  then have "memory s' (HigherHalf pf + of_nat m) =
     MemCopy_loop (memory s) (HigherHalf pf) (syscallStackBottom (currentTask s)) 0 12288
       (HigherHalf pf + of_nat m)"
    by (simp add: MemCopy_def)
  also have "\<dots> = memory s (syscallStackBottom (currentTask s) + of_nat m)"
  proof (rule MemCopy_loop_copied)
    show "\<forall>j<12288. \<forall>l<12288.
           HigherHalf pf + of_nat j \<noteq> syscallStackBottom (currentTask s) + of_nat l"
      by (rule assms(2))
    show "(12288::nat) \<le> 2 ^ 64" by simp
    show "0 \<le> m" by simp
    show "m < 12288" by (rule assms(3))
  qed
  finally show ?thesis .
qed

text \<open>
  C3. A fork of task 1, whose system-call stack is the region from
  \<open>0xffff800000110000\<close> up to its top \<open>0xffff800000113000\<close>, with the frames at physical
  \<open>0x200000\<close> handed to the child. The child's own region, which receives the byte copy,
  is \<open>0xffff800000200000\<close> up to \<open>0xffff800000203000\<close>; the child's kernel-stack pointer
  \<open>syscallStackAddr\<close> is nevertheless the parent's top of stack, outside the child's
  region.
\<close>

theorem ForkCurrentTask_child_shares_parent_stack_pointer:
  "(let parent = exampleTask 1 Normal;
        s = (exampleScheduler [] [])\<lparr>currentTask := parent\<rparr>;
        child = last (taskQueue (snd (ForkCurrentTask exampleConstants 1 2 3 0x200000 zeroFrame s)))
    in syscallStackBottom parent = 0xffff800000110000 \<and>
       syscallStackAddr parent = 0xffff800000113000 \<and>
       syscallStackBottom child = 0xffff800000200000 \<and>
       syscallStackAddr child = 0xffff800000113000 \<and>
       syscallStackAddr child = syscallStackAddr parent \<and>
       syscallStackAddr child \<noteq> syscallStackBottom child + 0x3000 \<and>
       rax (frame child) = 0 \<and>
       fst (ForkCurrentTask exampleConstants 1 2 3 0x200000 zeroFrame s) = Task.pid child)"
  by (simp add: ForkCurrentTask_def CreateTask_def exampleScheduler_def exampleTask_def Let_def
      HigherHalf_def SYSCALL_STACK_PAGE_COUNT_def zeroTask_def)

section \<open>Properties of TraversePath\<close>

lemma parts_nonempty: "parts s \<noteq> []"
  by (induction s) (auto split: list.splits)

lemma parts_no_slash: "CHR ''/'' \<notin> set s \<Longrightarrow> parts s = [s]"
  by (induction s) auto

lemma Split_no_slash: "CHR ''/'' \<notin> set s \<Longrightarrow> Split s CHR ''/'' = (s, [])"
  by (induction s) (auto simp: Split_def)

lemma parts_Split:
  "CHR ''/'' \<in> set s \<Longrightarrow>
   parts s = fst (Split s CHR ''/'') # parts (snd (Split s CHR ''/''))"
proof (induction s)
  case Nil
  then show ?case by simp
next
  case (Cons c path)
  show ?case
  proof (cases "c = CHR ''/''")
    case True
    then show ?thesis by (simp add: Split_def)
  next
    case False
    with Cons.prems have "CHR ''/'' \<in> set path" by simp
    from Cons.IH [OF this] False show ?thesis
      by (simp add: Split_def)
  qed
qed

lemma Count_parts: "Count s CHR ''/'' + 1 = length (parts s)"
proof (induction s)
  case Nil
  then show ?case by (simp add: Count_def)
next
  case (Cons c path)
  then show ?case
    using parts_nonempty [of path]
    by (cases "parts path") (auto simp: Count_def)
qed

lemma Count_zero: "Count s CHR ''/'' = 0 \<longleftrightarrow> CHR ''/'' \<notin> set s"
  by (auto simp: Count_def filter_empty_conv)

text \<open>
  The loop, started at depth \<open>Count + 1\<close> on a remaining path with \<open>lastVNode\<close> the vnode
  of the current inode, in terms of the parts of that path.
\<close>

lemma TraversePath_loop_parts:
  "length (parts remaining) = depth \<Longrightarrow>
   TraversePath_loop fs depth remaining (inodeNum lv) lv found tok =
     (case resolve fs lv (butlast (parts remaining)) of
        None \<Rightarrow> Inl AssertFailed
      | Some parent \<Rightarrow>
          (case findInListing (directoryListing (fs (inodeNum parent)))
                  (last (parts remaining)) of
             Some node \<Rightarrow> Inr (node, True, last (parts remaining))
           | None \<Rightarrow> Inr (parent, False, last (parts remaining))))"
proof (induction depth arbitrary: remaining lv found tok)
  case 0
  with parts_nonempty [of remaining] show ?case by simp
next
  case (Suc depth)
  show ?case
  proof (cases "CHR ''/'' \<in> set remaining")
    case False
    then have c: "parts remaining = [remaining]" by (rule parts_no_slash)
    with Suc.prems have d: "depth = 0" by simp
    from False have sp: "Split remaining CHR ''/'' = (remaining, [])" by (rule Split_no_slash)
    show ?thesis
      by (simp add: c d sp split: option.splits)
  next
    case True
    obtain c0 rest where sp: "Split remaining CHR ''/'' = (c0, rest)"
      by (cases "Split remaining CHR ''/''")
    from parts_Split [OF True] sp have c: "parts remaining = c0 # parts rest"
      by simp
    with Suc.prems have len: "length (parts rest) = depth" by simp
    with parts_nonempty [of rest] have d: "depth \<noteq> 0" by auto
    have bl: "butlast (parts remaining) = c0 # butlast (parts rest)"
      "last (parts remaining) = last (parts rest)"
      using c parts_nonempty [of rest] by simp_all
    show ?thesis
    proof (cases "findInListing (directoryListing (fs (inodeNum lv))) c0")
      case None
      then show ?thesis unfolding bl by (simp add: sp d)
    next
      case (Some node)
      with Suc.IH [OF len, of node True c0] show ?thesis
        unfolding bl by (simp add: sp)
    qed
  qed
qed

lemma TraversePath_parts:
  "TraversePath fs (CHR ''/'' # path) =
     (case resolve fs rootVNode (butlast (parts path)) of
        None \<Rightarrow> Inl AssertFailed
      | Some parent \<Rightarrow>
          (case findInListing (directoryListing (fs (inodeNum parent))) (last (parts path)) of
             Some node \<Rightarrow> Inr (node, True, last (parts path))
           | None \<Rightarrow> Inr (parent, False, last (parts path))))"
proof -
  have sp: "Split (CHR ''/'' # path) CHR ''/'' = ([], path)"
    by (simp add: Split_def)
  have "TraversePath fs (CHR ''/'' # path) =
        TraversePath_loop fs (Count path CHR ''/'' + 1) path INODE_ROOT_DIR
          \<lparr>name = [], inodeNum = 2\<rparr> False []"
    unfolding TraversePath_def sp by (simp del: TraversePath_loop.simps)
  also have "\<dots> =
        TraversePath_loop fs (length (parts path)) path (inodeNum rootVNode) rootVNode False []"
    unfolding Count_parts by (simp add: INODE_ROOT_DIR_def rootVNode_def)
  finally show ?thesis
    by (simp only: TraversePath_loop_parts)
qed

lemma resolve_snoc:
  "resolve fs v (xs @ [x]) =
     (case resolve fs v xs of
        None \<Rightarrow> None
      | Some parent \<Rightarrow> findInListing (directoryListing (fs (inodeNum parent))) x)"
  by (induction xs arbitrary: v) (auto split: option.splits)

text \<open>
  C4, as the code has it. For every path that begins with a slash and has no empty part
  after it (no doubled slash, no slash at the end, and more than the slash alone), with
  its components those of the rest of the path: when every component resolves, the
  traversal returns the vnode reached, \<open>exists = true\<close> and the last component; when all
  but the last resolve, it returns the vnode of the parent directory, \<open>exists = false\<close>
  and the unresolved last component; when a component before the last does not resolve,
  the \<^verbatim>\<open>KAssert\<close> fails and the kernel halts.
\<close>

theorem TraversePath_outcomes:
  "[] \<notin> set (parts path) \<Longrightarrow>
   (resolve fs rootVNode (components path) = Some v \<longrightarrow>
      TraversePath fs (CHR ''/'' # path) = Inr (v, True, last (components path))) \<and>
   (resolve fs rootVNode (butlast (components path)) = Some parent \<and>
    resolve fs rootVNode (components path) = None \<longrightarrow>
      TraversePath fs (CHR ''/'' # path) = Inr (parent, False, last (components path))) \<and>
   (resolve fs rootVNode (butlast (components path)) = None \<longrightarrow>
      TraversePath fs (CHR ''/'' # path) = Inl AssertFailed)"
proof -
  assume "[] \<notin> set (parts path)"
  then have "filter (\<lambda>part. part \<noteq> []) (parts path) = parts path"
    by (intro filter_True) auto
  then have cp: "components path = parts path"
    by (simp add: components_def)
  have split: "parts path = butlast (parts path) @ [last (parts path)]"
    using parts_nonempty [of path] by simp
  have r: "resolve fs rootVNode (parts path) =
     (case resolve fs rootVNode (butlast (parts path)) of
        None \<Rightarrow> None
      | Some p \<Rightarrow> findInListing (directoryListing (fs (inodeNum p))) (last (parts path)))"
    by (subst split) (rule resolve_snoc)
  show ?thesis
    unfolding cp by (auto simp: TraversePath_parts r split: option.splits)
qed

theorem TraversePath_outcomes_witness:
  "TraversePath exampleFs ''/bin/init'' = Inr (\<lparr>name = ''init'', inodeNum = 14\<rparr>, True, ''init'') \<and>
   TraversePath exampleFs ''/bin/sh'' = Inr (\<lparr>name = ''bin'', inodeNum = 12\<rparr>, False, ''sh'') \<and>
   TraversePath exampleFs ''/usr/init'' = Inl AssertFailed"
proof -
  have p: "[] \<notin> set (parts ''bin/init'')" "[] \<notin> set (parts ''bin/sh'')"
    "[] \<notin> set (parts ''usr/init'')"
    by simp_all
  have a: "resolve exampleFs rootVNode (components ''bin/init'') = Some \<lparr>name = ''init'', inodeNum = 14\<rparr>"
    by (simp add: components_def exampleFs_def rootVNode_def findInListing_def)
  have b: "resolve exampleFs rootVNode (butlast (components ''bin/sh'')) = Some \<lparr>name = ''bin'', inodeNum = 12\<rparr> \<and>
           resolve exampleFs rootVNode (components ''bin/sh'') = None"
    by (simp add: components_def exampleFs_def rootVNode_def findInListing_def)
  have c: "resolve exampleFs rootVNode (butlast (components ''usr/init'')) = None"
    by (simp add: components_def exampleFs_def rootVNode_def findInListing_def)
  have l: "last (components ''bin/init'') = ''init''" "last (components ''bin/sh'') = ''sh''"
    by (simp_all add: components_def)
  from TraversePath_outcomes [OF p(1), of exampleFs "\<lparr>name = ''init'', inodeNum = 14\<rparr>"] a l
  have "TraversePath exampleFs ''/bin/init'' = Inr (\<lparr>name = ''init'', inodeNum = 14\<rparr>, True, ''init'')"
    by simp
  moreover
  from TraversePath_outcomes [OF p(2), of exampleFs _ "\<lparr>name = ''bin'', inodeNum = 12\<rparr>"] b l
  have "TraversePath exampleFs ''/bin/sh'' = Inr (\<lparr>name = ''bin'', inodeNum = 12\<rparr>, False, ''sh'')"
    by simp
  moreover
  from TraversePath_outcomes [OF p(3), of exampleFs] c
  have "TraversePath exampleFs ''/usr/init'' = Inl AssertFailed"
    by simp
  ultimately show ?thesis by blast
qed

text \<open>
  The claim as stated fails twice. \<open>/usr/init\<close> in a file system whose root has no entry
  \<open>usr\<close> does not make \<^verbatim>\<open>TraversePath\<close> return at all, with \<open>NotFound\<close> or otherwise;
  the assertion fails. And \<open>/bin//init\<close>, whose components \<open>bin\<close> and \<open>init\<close> both
  resolve, is not traversed either: the empty part between the two slashes is looked up
  as a name in \<open>bin\<close>, is not found, and the assertion fails.
\<close>

theorem TraversePath_intermediate_counterexample:
  "TraversePath exampleFs ''/usr/init'' = Inl AssertFailed \<and>
   components ''bin//init'' = [''bin'', ''init''] \<and>
   resolve exampleFs rootVNode (components ''bin//init'') = Some \<lparr>name = ''init'', inodeNum = 14\<rparr> \<and>
   TraversePath exampleFs ''/bin//init'' = Inl AssertFailed"
  by (simp add: TraversePath_def Split_def Count_def exampleFs_def findInListing_def
      INODE_ROOT_DIR_def components_def rootVNode_def)


section \<open>Properties of the descriptor search of Open\<close>

lemma findDescriptor_loop_prefix:
  "k \<le> length fds \<Longrightarrow>
   (\<exists>table idx.
      fold (\<lambda>i (table, descriptorIndex).
             if \<not> present (table ! i)
             then (table[i := (table ! i)\<lparr>present := True\<rparr>], int i)
             else (table, descriptorIndex))
          [0..<k] (fds, -1) = (table, idx) \<and>
      table = map (\<lambda>d. d\<lparr>present := True\<rparr>) (take k fds) @ drop k fds \<and>
      ((idx = -1 \<and> (\<forall>i<k. present (fds ! i))) \<or>
       (\<exists>i<k. idx = int i \<and> \<not> present (fds ! i) \<and> (\<forall>j. i < j \<and> j < k \<longrightarrow> present (fds ! j)))))"
proof (induction k)
  case 0
  then show ?case by simp
next
  case (Suc k)
  let ?f = "\<lambda>i (table, descriptorIndex).
             if \<not> present (table ! i)
             then (table[i := (table ! i)\<lparr>present := True\<rparr>], int i)
             else (table, descriptorIndex)"
  let ?mark = "\<lambda>d. d\<lparr>present := True\<rparr>"
  from Suc.prems have k: "k < length fds" by simp
  with Suc.IH obtain table idx where
    fold: "fold ?f [0..<k] (fds, -1) = (table, idx)" and
    table: "table = map ?mark (take k fds) @ drop k fds" and
    idx: "(idx = -1 \<and> (\<forall>i<k. present (fds ! i))) \<or>
       (\<exists>i<k. idx = int i \<and> \<not> present (fds ! i) \<and> (\<forall>j. i < j \<and> j < k \<longrightarrow> present (fds ! j)))"
    by auto
  have nth: "table ! k = fds ! k"
    using k by (simp add: table nth_append)
  have step: "fold ?f [0..<Suc k] (fds, -1) = ?f k (table, idx)"
    by (simp add: fold)
  have tk: "take (Suc k) fds = take k fds @ [fds ! k]"
    using k by (simp add: take_Suc_conv_app_nth)
  have dk: "drop k fds = fds ! k # drop (Suc k) fds"
    using k by (simp add: Cons_nth_drop_Suc)
  show ?case
  proof (cases "present (fds ! k)")
    case True
    then have same: "?mark (fds ! k) = fds ! k" by simp
    have "fold ?f [0..<Suc k] (fds, -1) = (table, idx)"
      using step nth True by simp
    moreover have "table = map ?mark (take (Suc k) fds) @ drop (Suc k) fds"
      using table dk by (simp add: tk same)
    moreover have "(idx = -1 \<and> (\<forall>i<Suc k. present (fds ! i))) \<or>
       (\<exists>i<Suc k. idx = int i \<and> \<not> present (fds ! i) \<and>
          (\<forall>j. i < j \<and> j < Suc k \<longrightarrow> present (fds ! j)))"
      using idx True by (auto simp: less_Suc_eq)
    ultimately show ?thesis by blast
  next
    case False
    have "fold ?f [0..<Suc k] (fds, -1) = (table[k := ?mark (fds ! k)], int k)"
      using step nth False by simp
    moreover have "table[k := ?mark (fds ! k)] = map ?mark (take (Suc k) fds) @ drop (Suc k) fds"
      using k by (simp add: table dk tk list_update_append)
    moreover have "\<exists>i<Suc k. int k = int i \<and> \<not> present (fds ! i) \<and>
          (\<forall>j. i < j \<and> j < Suc k \<longrightarrow> present (fds ! j))"
      using False by auto
    ultimately show ?thesis by blast
  qed
qed

text \<open>
  The loop marks every free slot present; the index it leaves is \<open>-1\<close> when there was no
  free slot and the number of the highest free slot otherwise.
\<close>

lemma findDescriptor_loop_result:
  "fst (findDescriptor_loop fds) = map (\<lambda>d. d\<lparr>present := True\<rparr>) fds \<and>
   ((snd (findDescriptor_loop fds) = -1 \<and> (\<forall>i<length fds. present (fds ! i))) \<or>
    (\<exists>i<length fds. snd (findDescriptor_loop fds) = int i \<and> \<not> present (fds ! i) \<and>
       (\<forall>j. i < j \<and> j < length fds \<longrightarrow> present (fds ! j))))"
  using findDescriptor_loop_prefix [of "length fds" fds]
  by (auto simp: findDescriptor_loop_def)

lemma findDescriptor_full:
  "\<forall>i<length fds. present (fds ! i) \<Longrightarrow>
   findDescriptor fds = (fds @ [\<lparr>present = True, offset = 0, vNode = None\<rparr>], int (length fds))"
proof -
  assume all: "\<forall>i<length fds. present (fds ! i)"
  then have "map (\<lambda>d. d\<lparr>present := True\<rparr>) fds = fds"
    by (intro nth_equalityI) simp_all
  moreover from all findDescriptor_loop_result [of fds]
  have "snd (findDescriptor_loop fds) = -1" by auto
  ultimately show ?thesis
    using findDescriptor_loop_result [of fds]
    by (simp add: findDescriptor_def case_prod_beta)
qed

lemma findDescriptor_free:
  assumes "i < length fds" "\<not> present (fds ! i)"
  shows "\<exists>h<length fds. findDescriptor fds = (map (\<lambda>d. d\<lparr>present := True\<rparr>) fds, int h) \<and>
           \<not> present (fds ! h) \<and> (\<forall>j. h < j \<and> j < length fds \<longrightarrow> present (fds ! j))"
proof -
  from assms findDescriptor_loop_result [of fds] obtain h where
    h: "h < length fds" "snd (findDescriptor_loop fds) = int h" "\<not> present (fds ! h)"
       "\<forall>j. h < j \<and> j < length fds \<longrightarrow> present (fds ! j)"
    by auto
  moreover have "fst (findDescriptor_loop fds) = map (\<lambda>d. d\<lparr>present := True\<rparr>) fds"
    using findDescriptor_loop_result [of fds] by simp
  ultimately have "findDescriptor fds = (map (\<lambda>d. d\<lparr>present := True\<rparr>) fds, int h)"
    by (simp add: findDescriptor_def case_prod_beta)
  with h show ?thesis by blast
qed

text \<open>
  C2. A table of two closed descriptors (left by two \<^verbatim>\<open>Open\<close> and two \<^verbatim>\<open>Close\<close>
  calls). The lowest free slot is 0, and the claim has \<^verbatim>\<open>Open\<close> reuse it and leave slot 1
  free. The search marks both slots present and ends with the index of the last one:
  \<^verbatim>\<open>Open\<close> returns 1, and slot 0 is present without a vnode.
\<close>

theorem Open_marks_every_free_slot:
  "lowestFree [closedDescriptor, closedDescriptor] = Some 0 \<and>
   findDescriptor [closedDescriptor, closedDescriptor]
     = ([closedDescriptor\<lparr>present := True\<rparr>, closedDescriptor\<lparr>present := True\<rparr>], 1) \<and>
   Open env ''/a.txt'' 0 \<lparr>fileDescriptors = [closedDescriptor, closedDescriptor]\<rparr> exampleFs
     = Inr (1,
            \<lparr>fileDescriptors =
               [\<lparr>present = True, offset = 0, vNode = None\<rparr>,
                \<lparr>present = True, offset = 0, vNode = Some \<lparr>name = ''a.txt'', inodeNum = 13\<rparr>\<rparr>]\<rparr>,
            exampleFs)"
proof -
  have fd: "findDescriptor [closedDescriptor, closedDescriptor]
     = ([closedDescriptor\<lparr>present := True\<rparr>, closedDescriptor\<lparr>present := True\<rparr>], 1)"
    by (simp add: findDescriptor_def findDescriptor_loop_def closedDescriptor_def upt_rec)
  have tp: "TraversePath exampleFs ''/a.txt'' = Inr (\<lparr>name = ''a.txt'', inodeNum = 13\<rparr>, True, ''a.txt'')"
    by (simp add: TraversePath_def Split_def Count_def exampleFs_def findInListing_def
        INODE_ROOT_DIR_def)
  have "lowestFree [closedDescriptor, closedDescriptor] = Some 0"
    by (simp add: lowestFree_def closedDescriptor_def upt_rec)
  moreover have "Open env ''/a.txt'' 0 \<lparr>fileDescriptors = [closedDescriptor, closedDescriptor]\<rparr> exampleFs
     = Inr (1,
            \<lparr>fileDescriptors =
               [\<lparr>present = True, offset = 0, vNode = None\<rparr>,
                \<lparr>present = True, offset = 0, vNode = Some \<lparr>name = ''a.txt'', inodeNum = 13\<rparr>\<rparr>]\<rparr>,
            exampleFs)"
    by (simp add: Open_def tp closedDescriptor_def fd [unfolded closedDescriptor_def])
  ultimately show ?thesis using fd by simp
qed

section \<open>Properties of GetDirectoryListing\<close>

lemma GetDirectoryListing_loop_step:
  "parsedLength < unat sz \<Longrightarrow>
   GetDirectoryListing_loop content sz parsedLength vNodes =
     GetDirectoryListing_loop content sz
       (parsedLength + unat (directoryEntry_entrySize (entryAt content parsedLength)))
       (if directoryEntry_inodeNum (entryAt content parsedLength) \<noteq> 0
        then vNodes @ [ConstructVNode (entryAt content parsedLength)]
        else vNodes)"
  by (subst GetDirectoryListing_loop.simps) (simp add: Let_def entryAt_def)

lemma GetDirectoryListing_loop_end:
  "\<not> parsedLength < unat sz \<Longrightarrow> GetDirectoryListing_loop content sz parsedLength vNodes = Some vNodes"
  by (subst GetDirectoryListing_loop.simps) simp

lemma listedEntries_Cons:
  "listedEntries content p (z # zs) =
     (if directoryEntry_inodeNum (entryAt content p) \<noteq> 0
      then ConstructVNode (entryAt content p) # listedEntries content (p + z) zs
      else listedEntries content (p + z) zs)"
  by (simp add: listedEntries_def)

lemma GetDirectoryListing_loop_entries:
  "hasEntrySizes content p sizes \<Longrightarrow> p + sum_list sizes = unat sz \<Longrightarrow>
   GetDirectoryListing_loop content sz p vNodes = Some (vNodes @ listedEntries content p sizes)"
proof (induction sizes arbitrary: p vNodes)
  case Nil
  then show ?case
    by (simp add: GetDirectoryListing_loop_end listedEntries_def)
next
  case (Cons z zs)
  from Cons.prems have z: "unat (directoryEntry_entrySize (entryAt content p)) = z" "1 \<le> z"
    and rest: "hasEntrySizes content (p + z) zs" "(p + z) + sum_list zs = unat sz"
    by simp_all
  from z(2) rest(2) have lt: "p < unat sz" by simp
  show ?case
    by (subst GetDirectoryListing_loop_step [OF lt])
       (simp add: z(1) Cons.IH [OF rest] listedEntries_Cons)
qed

text \<open>A scan that stands on an entry of size 0 inside the directory never returns.\<close>

lemma GetDirectoryListing_loop_stuck:
  assumes "p < unat sz" "unat (directoryEntry_entrySize (entryAt content p)) = 0"
  shows "GetDirectoryListing_loop content sz p vNodes = None"
proof (cases "GetDirectoryListing_loop content sz p vNodes")
  case None
  then show ?thesis .
next
  case (Some result)
  have "\<not> (p < unat sz \<and> unat (directoryEntry_entrySize (entryAt content p)) = 0)"
  proof (rule GetDirectoryListing_loop.raw_induct
      [where P = "\<lambda>c s q vs r. \<not> (q < unat s \<and> unat (directoryEntry_entrySize (entryAt c q)) = 0)",
       OF _ Some])
    fix loop :: "(nat \<Rightarrow> u8) \<Rightarrow> u32 \<Rightarrow> nat \<Rightarrow> VNode list \<Rightarrow> VNode list option"
    fix c s q vs r
    assume IH: "\<And>c s q vs r. loop c s q vs = Some r \<Longrightarrow>
        \<not> (q < unat s \<and> unat (directoryEntry_entrySize (entryAt c q)) = 0)"
    assume body: "(if q < unat s
      then let nameLengthLowByte = c (q + 6);
               trueEntrySize = 8 + unat nameLengthLowByte;
               directoryEntry = map (\<lambda>k. c (q + k)) [0..<trueEntrySize]
           in loop c s (q + unat (directoryEntry_entrySize directoryEntry))
               (if directoryEntry_inodeNum directoryEntry \<noteq> 0
                then vs @ [ConstructVNode directoryEntry] else vs)
      else Some vs) = Some r"
    show "\<not> (q < unat s \<and> unat (directoryEntry_entrySize (entryAt c q)) = 0)"
    proof
      assume stuck: "q < unat s \<and> unat (directoryEntry_entrySize (entryAt c q)) = 0"
      with body obtain vs' where "loop c s q vs' = Some r"
        by (auto simp: Let_def entryAt_def split: if_splits)
      from IH [OF this] stuck show False by simp
    qed
  qed
  with assms show ?thesis by simp
qed

lemma GetDirectoryListing_loop_reaches_stuck:
  "hasEntrySizes content p sizes \<Longrightarrow> p + sum_list sizes < unat sz \<Longrightarrow>
   unat (directoryEntry_entrySize (entryAt content (p + sum_list sizes))) = 0 \<Longrightarrow>
   GetDirectoryListing_loop content sz p vNodes = None"
proof (induction sizes arbitrary: p vNodes)
  case Nil
  then show ?case by (simp add: GetDirectoryListing_loop_stuck)
next
  case (Cons z zs)
  from Cons.prems have z: "unat (directoryEntry_entrySize (entryAt content p)) = z"
    and rest: "hasEntrySizes content (p + z) zs" "(p + z) + sum_list zs < unat sz"
      "unat (directoryEntry_entrySize (entryAt content ((p + z) + sum_list zs))) = 0"
    by (simp_all add: add.assoc)
  from rest(2) have lt: "p < unat sz" by simp
  show ?case
    by (subst GetDirectoryListing_loop_step [OF lt]) (simp add: z Cons.IH [OF rest])
qed

text \<open>
  C10. When the entries of the directory, taken in \<open>entry_size\<close> strides from position 0,
  have sizes of at least 1 that sum to the inode's \<open>size0\<close>, the enumeration returns, and
  what it returns is the vnodes of the entries whose inode number is not zero, in the
  order of the directory. When the strides lead, inside the directory, to an entry whose
  \<open>entry_size\<close> is 0, the scan does not advance past it and the enumeration never returns.
\<close>

theorem GetDirectoryListing_strides:
  "(hasEntrySizes content 0 sizes \<and> sum_list sizes = unat sz \<longrightarrow>
      GetDirectoryListing content sz = Some (listedEntries content 0 sizes) \<and>
      listedEntries content 0 sizes =
        map (\<lambda>p. ConstructVNode (entryAt content p))
          (filter (\<lambda>p. directoryEntry_inodeNum (entryAt content p) \<noteq> 0) (offsets 0 sizes))) \<and>
   (hasEntrySizes content 0 sizes \<and> sum_list sizes < unat sz \<and>
    directoryEntry_entrySize (entryAt content (sum_list sizes)) = 0 \<longrightarrow>
      GetDirectoryListing content sz = None)"
proof (intro conjI impI)
  assume a: "hasEntrySizes content 0 sizes \<and> sum_list sizes = unat sz"
  then have "hasEntrySizes content 0 sizes" "0 + sum_list sizes = unat sz"
    by simp_all
  then have "GetDirectoryListing_loop content sz 0 [] = Some ([] @ listedEntries content 0 sizes)"
    by (rule GetDirectoryListing_loop_entries)
  then show "GetDirectoryListing content sz = Some (listedEntries content 0 sizes)"
    by (simp add: GetDirectoryListing_def)
  show "listedEntries content 0 sizes =
        map (\<lambda>p. ConstructVNode (entryAt content p))
          (filter (\<lambda>p. directoryEntry_inodeNum (entryAt content p) \<noteq> 0) (offsets 0 sizes))"
    by (simp add: listedEntries_def)
next
  assume b: "hasEntrySizes content 0 sizes \<and> sum_list sizes < unat sz \<and>
    directoryEntry_entrySize (entryAt content (sum_list sizes)) = 0"
  then have "hasEntrySizes content 0 sizes" "0 + sum_list sizes < unat sz"
    "unat (directoryEntry_entrySize (entryAt content (0 + sum_list sizes))) = 0"
    by simp_all
  then have "GetDirectoryListing_loop content sz 0 [] = None"
    by (rule GetDirectoryListing_loop_reaches_stuck)
  then show "GetDirectoryListing content sz = None"
    by (simp add: GetDirectoryListing_def)
qed

lemma exampleDirectory_entries:
  "entryAt exampleDirectory 0 = [11, 0, 0, 0, 12, 0, 1, 1, 97]"
  "entryAt exampleDirectory 12 = [0, 0, 0, 0, 12, 0, 1, 1, 120]"
  "entryAt exampleDirectory 24 = [12, 0, 0, 0, 12, 0, 2, 1, 98, 99]"
  by (simp_all add: entryAt_def exampleDirectory_def exampleDirectoryBytes_def upt_rec)

lemma brokenDirectory_entries:
  "entryAt brokenDirectory 0 = [11, 0, 0, 0, 12, 0, 1, 1, 97]"
  "entryAt brokenDirectory 12 = [0, 0, 0, 0, 0, 0, 1, 1, 120]"
  by (simp_all add: entryAt_def brokenDirectory_def exampleDirectory_def
      exampleDirectoryBytes_def upt_rec)

lemma example_chars:
  "char_of (97 :: nat) = CHR ''a''" "char_of (98 :: nat) = CHR ''b''"
  "char_of (99 :: nat) = CHR ''c''"
  by code_simp+

theorem GetDirectoryListing_strides_witness:
  "GetDirectoryListing exampleDirectory 36
     = Some [\<lparr>name = ''a'', inodeNum = 11\<rparr>, \<lparr>name = ''bc'', inodeNum = 12\<rparr>] \<and>
   GetDirectoryListing brokenDirectory 36 = None"
proof -
  have sizes: "hasEntrySizes exampleDirectory 0 [12, 12, 12] \<and> sum_list [12, 12, 12] = unat (36 :: u32)"
    by (simp add: exampleDirectory_entries directoryEntry_entrySize_def)
  have listed: "listedEntries exampleDirectory 0 [12, 12, 12]
     = [\<lparr>name = ''a'', inodeNum = 11\<rparr>, \<lparr>name = ''bc'', inodeNum = 12\<rparr>]"
    by (simp add: listedEntries_def exampleDirectory_entries directoryEntry_inodeNum_def
        ConstructVNode_def VNode_new_def directoryEntry_nameLength_def example_chars)
  have broken: "hasEntrySizes brokenDirectory 0 [12] \<and> sum_list [12] < unat (36 :: u32) \<and>
    directoryEntry_entrySize (entryAt brokenDirectory (sum_list [12])) = 0"
    by (simp add: brokenDirectory_entries directoryEntry_entrySize_def)
  from GetDirectoryListing_strides [of exampleDirectory "[12, 12, 12]" 36] sizes listed
  have "GetDirectoryListing exampleDirectory 36
     = Some [\<lparr>name = ''a'', inodeNum = 11\<rparr>, \<lparr>name = ''bc'', inodeNum = 12\<rparr>]"
    by simp
  moreover
  from GetDirectoryListing_strides [of brokenDirectory "[12]" 36] broken
  have "GetDirectoryListing brokenDirectory 36 = None"
    by simp
  ultimately show ?thesis by simp
qed

section \<open>Properties of SystemCallHandler\<close>

lemma sint_neg_scast_errorKind:
  assumes "errorKind e"
  shows "sint (- scast e :: u64) = - sint e"
proof -
  from assms have r: "1 \<le> sint e" "sint e \<le> 4095" by (simp_all add: errorKind_def)
  have up: "sint (scast e :: u64) = sint e"
    by (rule sint_up_scast) (simp add: is_up)
  have "sint (- scast e :: u64) = signed_take_bit (LENGTH(64) - 1) (- sint (scast e :: u64))"
    by (rule sint_word_minus)
  also have "\<dots> = signed_take_bit 63 (- sint e)"
    by (simp only: up) simp
  also have "\<dots> = - sint e"
  proof (rule signed_take_bit_int_eq_self)
    show "- (2 ^ 63) \<le> - sint e" using r by simp
    show "- sint e < 2 ^ 63" using r by simp
  qed
  finally show ?thesis .
qed

text \<open>
  C7. Whatever the dispatched call does, the handler leaves the frame the call left with
  only \<open>rax\<close> written. Without an error \<open>rax\<close> is the call's return value. With an error
  kind \<open>e\<close> other than \<open>None\<close>, \<open>rax\<close> is the two's-complement negation of \<open>e\<close>, a
  negative value from \<open>-4095\<close> to \<open>-1\<close>. So a value of \<open>rax\<close> that is not negative
  means that no error was reported.
\<close>

theorem SystemCallHandler_return_register:
  assumes "SystemCall (rax fr) (rdi fr) (rsi fr) (rdx fr) (rcx fr) (r8 fr) (r9 fr) fr k
             = (returnValue, e, fr1, k1)"
    and "e \<noteq> Error_None \<longrightarrow> errorKind e"
  shows "snd (SystemCallHandler SystemCall fr k) = k1 \<and>
    fst (SystemCallHandler SystemCall fr k)
      = fr1\<lparr>rax := rax (fst (SystemCallHandler SystemCall fr k))\<rparr> \<and>
    (e = Error_None \<longrightarrow> rax (fst (SystemCallHandler SystemCall fr k)) = returnValue) \<and>
    (e \<noteq> Error_None \<longrightarrow>
       rax (fst (SystemCallHandler SystemCall fr k)) = - scast e \<and>
       sint (rax (fst (SystemCallHandler SystemCall fr k))) = - sint e \<and>
       sint (rax (fst (SystemCallHandler SystemCall fr k))) < 0 \<and>
       - 4095 \<le> sint (rax (fst (SystemCallHandler SystemCall fr k)))) \<and>
    (0 \<le> sint (rax (fst (SystemCallHandler SystemCall fr k))) \<longrightarrow> e = Error_None)"
proof -
  have h: "SystemCallHandler SystemCall fr k =
      (if e \<noteq> Error_None then fr1\<lparr>rax := - scast e\<rparr> else fr1\<lparr>rax := returnValue\<rparr>, k1)"
    by (simp add: SystemCallHandler_def assms(1))
  show ?thesis
  proof (cases "e = Error_None")
    case True
    with h show ?thesis by simp
  next
    case False
    with assms(2) have kind: "errorKind e" by simp
    then have r: "1 \<le> sint e" "sint e \<le> 4095" by (simp_all add: errorKind_def)
    from h False have rx: "fst (SystemCallHandler SystemCall fr k) = fr1\<lparr>rax := - scast e\<rparr>"
      "snd (SystemCallHandler SystemCall fr k) = k1"
      by simp_all
    have s: "sint (- scast e :: u64) = - sint e" by (rule sint_neg_scast_errorKind [OF kind])
    show ?thesis
      using False r by (simp add: rx s)
  qed
qed

theorem SystemCallHandler_return_register_witness:
  "rax (fst (SystemCallHandler exampleSystemCall (zeroFrame\<lparr>rax := 0\<rparr>) ())) = - 1 \<and>
   sint (rax (fst (SystemCallHandler exampleSystemCall (zeroFrame\<lparr>rax := 0\<rparr>) ()))) = - 1 \<and>
   rax (fst (SystemCallHandler exampleSystemCall (zeroFrame\<lparr>rax := 3\<rparr>) ())) = 3"
proof -
  have a: "exampleSystemCall (rax (zeroFrame\<lparr>rax := 0\<rparr>)) (rdi (zeroFrame\<lparr>rax := 0\<rparr>))
      (rsi (zeroFrame\<lparr>rax := 0\<rparr>)) (rdx (zeroFrame\<lparr>rax := 0\<rparr>)) (rcx (zeroFrame\<lparr>rax := 0\<rparr>))
      (r8 (zeroFrame\<lparr>rax := 0\<rparr>)) (r9 (zeroFrame\<lparr>rax := 0\<rparr>)) (zeroFrame\<lparr>rax := 0\<rparr>) ()
      = (0, 1, zeroFrame\<lparr>rax := 0\<rparr>, ())"
    by (simp add: exampleSystemCall_def)
  have ak: "(1 :: Error) \<noteq> Error_None \<longrightarrow> errorKind 1"
    by (simp add: errorKind_def)
  have b: "exampleSystemCall (rax (zeroFrame\<lparr>rax := 3\<rparr>)) (rdi (zeroFrame\<lparr>rax := 3\<rparr>))
      (rsi (zeroFrame\<lparr>rax := 3\<rparr>)) (rdx (zeroFrame\<lparr>rax := 3\<rparr>)) (rcx (zeroFrame\<lparr>rax := 3\<rparr>))
      (r8 (zeroFrame\<lparr>rax := 3\<rparr>)) (r9 (zeroFrame\<lparr>rax := 3\<rparr>)) (zeroFrame\<lparr>rax := 3\<rparr>) ()
      = (3, Error_None, zeroFrame\<lparr>rax := 3\<rparr>, ())"
    by (simp add: exampleSystemCall_def)
  have bk: "Error_None \<noteq> Error_None \<longrightarrow> errorKind Error_None"
    by simp
  from SystemCallHandler_return_register
         [of exampleSystemCall "zeroFrame\<lparr>rax := 0\<rparr>" "()" 0 1 "zeroFrame\<lparr>rax := 0\<rparr>" "()"] a ak
  have "rax (fst (SystemCallHandler exampleSystemCall (zeroFrame\<lparr>rax := 0\<rparr>) ())) = - 1"
    "sint (rax (fst (SystemCallHandler exampleSystemCall (zeroFrame\<lparr>rax := 0\<rparr>) ()))) = - 1"
    by (simp_all add: Error_None_def)
  moreover from SystemCallHandler_return_register
         [of exampleSystemCall "zeroFrame\<lparr>rax := 3\<rparr>" "()" 3 Error_None "zeroFrame\<lparr>rax := 3\<rparr>" "()"] b bk
  have "rax (fst (SystemCallHandler exampleSystemCall (zeroFrame\<lparr>rax := 3\<rparr>) ())) = 3"
    by simp
  ultimately show ?thesis by simp
qed

section \<open>Properties of LoadELF\<close>

text \<open>
  C9. A load that runs to its end has opened the file, read a header whose first four
  bytes are \<open>7F 45 4C 46\<close>, whose program-header entry size is the size of a program
  header and whose type is \<open>Executable\<close> or \<open>Shared\<close>; and when the type is \<open>Shared\<close>
  the entry it returns is \<open>RTDL_ADDR\<close>, that is \<open>0x40000000\<close>, plus the header's entry.
\<close>

theorem LoadELF_accepts_only_checked_images:
  assumes "LoadELF fuel env path st = Some (Inr st')"
  shows "\<exists>file header. files env path = Some file \<and> elfHeader file = Some header \<and>
           eIdentMagic header 0 = 0x7f \<and> eIdentMagic header 1 = 0x45 \<and>
           eIdentMagic header 2 = 0x4c \<and> eIdentMagic header 3 = 0x46 \<and>
           programHeaderTableEntrySize header = sizeofProgramHeader env \<and>
           (ELFHeader.type header = Executable \<or> ELFHeader.type header = Shared) \<and>
           (ELFHeader.type header = Shared \<longrightarrow>
              loadedEntry st' = RTDL_ADDR + entry header \<and>
              loadedEntry st' = 0x40000000 + entry header)"
proof (cases fuel)
  case 0
  with assms show ?thesis by simp
next
  case (Suc n)
  with assms obtain img where f: "files env path = Some img"
    by (auto split: option.splits)
  with assms Suc obtain header where header: "elfHeader img = Some header"
    by (auto split: option.splits)
  from assms Suc f header have
    magic: "eIdentMagic header 0 = 0x7f \<and> eIdentMagic header 1 = 0x45 \<and>
            eIdentMagic header 2 = 0x4c \<and> eIdentMagic header 3 = 0x46" and
    size: "programHeaderTableEntrySize header = sizeofProgramHeader env" and
    ty: "ELFHeader.type header = Executable \<or> ELFHeader.type header = Shared"
    by (auto split: if_splits)
  from assms Suc f header magic size ty obtain dyn addr st1 where
    fin: "st' = finishLoad header dyn addr st1"
    by (auto split: if_splits option.splits sum.splits)
  have "ELFHeader.type header = Shared \<longrightarrow> loadedEntry st' = RTDL_ADDR + entry header"
    by (simp add: fin finishLoad_def)
  with f header magic size ty show ?thesis
    by (auto simp: RTDL_ADDR_def)
qed

theorem LoadELF_accepts_only_checked_images_witness:
  "LoadELF 1 exampleELFEnv ''/lib/ld.so'' emptyLoaded
     = Some (Inr (emptyLoaded\<lparr>loadedEntry := 0x40001040,
                               mappedPages := [0x40000000, 0x40001000]\<rparr>)) \<and>
   loadedEntry (emptyLoaded\<lparr>loadedEntry := 0x40001040,
                             mappedPages := [0x40000000, 0x40001000]\<rparr>) = 0x40000000 + 0x1040"
proof -
  have h: "LoadELF 1 exampleELFEnv ''/lib/ld.so'' emptyLoaded
     = Some (Inr (emptyLoaded\<lparr>loadedEntry := 0x40001040,
                               mappedPages := [0x40000000, 0x40001000]\<rparr>))"
    by (simp add: exampleELFEnv_def exampleInterpreter_def elfMagic_def finishLoad_def
        LoadProgramHeader_def RTDL_ADDR_def emptyLoaded_def upt_rec Let_def)
  from LoadELF_accepts_only_checked_images [OF h]
  have "\<exists>file header. files exampleELFEnv ''/lib/ld.so'' = Some file \<and>
          elfHeader file = Some header \<and>
          (ELFHeader.type header = Shared \<longrightarrow>
             loadedEntry (emptyLoaded\<lparr>loadedEntry := 0x40001040,
                             mappedPages := [0x40000000, 0x40001000]\<rparr>) = 0x40000000 + entry header)"
    by blast
  then have "loadedEntry (emptyLoaded\<lparr>loadedEntry := 0x40001040,
                             mappedPages := [0x40000000, 0x40001000]\<rparr>) = 0x40000000 + 0x1040"
    by (auto simp: exampleELFEnv_def exampleInterpreter_def)
  with h show ?thesis by simp
qed

section \<open>Properties of RepositionOffset\<close>

text \<open>
  What \<^verbatim>\<open>RepositionOffset\<close> does by itself: it sets the descriptor's offset, and it
  leaves the file system as it is when the new offset is within \<open>size0\<close>; beyond
  \<open>size0\<close> the file system afterwards is what the inode's
  \<^verbatim>\<open>Write(0, offset - size0, size0, false)\<close> makes of it.
\<close>

lemma RepositionOffset_effect:
  "RepositionOffset env fd inode n seekType fs = (off, fd', fs') \<Longrightarrow>
   off = offset fd' \<and> fd' = fd\<lparr>offset := off\<rparr> \<and>
   off = (case seekType of SeekSet \<Rightarrow> n | SeekCursor \<Rightarrow> offset fd + n
          | SeekEnd \<Rightarrow> ucast (size0 (fs inode)) + n) \<and>
   (off \<le> ucast (size0 (fs inode)) \<longrightarrow> fs' = fs) \<and>
   (ucast (size0 (fs inode)) < off \<longrightarrow>
      fs' = inodeWriteNull env inode (off - ucast (size0 (fs inode)))
              (ucast (size0 (fs inode))) fs)"
  by (cases seekType) (auto simp: RepositionOffset_def Let_def)


end
